theory Spec2Isabelle
  imports Complex_Main "HOL-Library.AList"
begin

unbundle bit_operations_syntax

section \<open>FSPermissionRemapper: the permission overlay of \<open>main.py\<close>\<close>

text \<open>
  \<open>main.py\<close> defines one class, \<open>PermissionRemappedFilesystem\<close>, whose methods are
  called by the FUSE bridge. An object holds \<open>src_path\<close> and the dictionary
  \<open>permissions\<close>; every method also talks to the real filesystem through \<open>os\<close>.
  The embedding passes all three along explicitly in one record (\<open>fs_state\<close>).
  A method that raises returns \<open>Inl\<close> of the exception. In the methods modelled
  here every assignment to \<open>self.permissions\<close> comes after the last statement that
  can raise, so the state after an exception is the state before the call; the
  write of the sidecar file in \<open>destroy\<close> is taken as one step, which either
  fails and changes nothing or writes the whole text.
\<close>

subsection \<open>Exceptions\<close>

datatype error =
    FileNotFoundError
  | OSError
  | JSONDecodeError
  | ValueError
  | IndexError
  | KeyError

subsection \<open>Data\<close>

text \<open>
  One entry of \<open>self.permissions\<close>: the dictionary
  \<open>{'uid': .., 'gid': .., 'mode': ..}\<close>. Python integers are unbounded.
\<close>

record perms =
  uid :: int
  gid :: int
  mode :: int

text \<open>
  A Python \<open>dict\<close> keeps its keys in insertion order, and \<open>destroy\<close> iterates over
  it, so the store is an association list: assigning to a key that is present
  replaces the value in place, assigning to a new key appends
  (\<^const>\<open>AList.update\<close>). The keys of a dictionary are distinct.
\<close>

type_synonym store = "(string \<times> perms) list"

definition contains :: "store \<Rightarrow> string \<Rightarrow> bool" where
  "contains d k = (map_of d k \<noteq> None)"

definition getitem :: "store \<Rightarrow> string \<Rightarrow> error + perms" where
  "getitem d k = (case map_of d k of None \<Rightarrow> Inl KeyError | Some v \<Rightarrow> Inr v)"

definition setitem :: "store \<Rightarrow> string \<Rightarrow> perms \<Rightarrow> store" where
  "setitem d k v = AList.update k v d"

text \<open>
  What \<open>os.lstat\<close> and \<open>os.stat\<close> return, with the fields the program reads, and the
  real owner. \<open>getattr\<close> answers with a dictionary of the same twelve keys.
  The three timestamps are Python floats; they are only copied.
\<close>

record stat_result =
  st_mode :: int
  st_uid :: int
  st_gid :: int
  st_nlink :: int
  st_size :: int
  st_blocks :: int
  st_blksize :: int
  st_ino :: int
  st_dev :: int
  st_ctime :: real
  st_mtime :: real
  st_atime :: real

text \<open>
  The text of a file, as far as \<open>json\<close> is concerned: either the text of a JSON
  object whose members are permission entries (the members in the order of the
  text, a key possibly repeated), or a text that \<open>json.load\<close> rejects.
  \<open>json.dump\<close> writes the members of a dictionary in its order; \<open>json.load\<close> builds
  the dictionary by assigning the members from left to right. A JSON text of
  another shape, which \<open>json.load\<close> would accept and the program would not
  understand, is outside this type.
\<close>

datatype content =
    JSON "(string \<times> perms) list"
  | Unparsable

definition json_dump :: "store \<Rightarrow> content" where
  "json_dump d = JSON d"

definition json_load :: "content \<Rightarrow> error + store" where
  "json_load c =
     (case c of
        JSON members \<Rightarrow> Inr (foldl (\<lambda>d (k, v). setitem d k v) [] members)
      | Unparsable \<Rightarrow> Inl JSONDecodeError)"

subsection \<open>The real filesystem\<close>

text \<open>
  The real filesystem is outside the program. It is represented by what it
  answers to each call the program makes, per path string as the program passes
  it: \<open>lstat_tab\<close> for \<open>os.lstat\<close>, \<open>stat_tab\<close> for \<open>os.stat\<close> (which follows symbolic
  links; \<open>os.path.exists\<close> and \<open>os.path.isdir\<close> are built on it), \<open>listdir_tab\<close> for
  \<open>os.listdir\<close>, \<open>readlink_tab\<close> for \<open>os.readlink\<close>, \<open>data_tab\<close> for opening a file
  and reading it, \<open>write_tab\<close> for opening a file with mode \<open>'w'\<close> and writing it
  (\<open>Inr st\<close>: the call succeeds and \<open>st\<close> is what \<open>os.stat\<close> answers for the path
  afterwards), \<open>unlink_tab\<close> for \<open>os.unlink\<close>, and \<open>cwd\<close> for \<open>os.getcwd()\<close>.
\<close>

record realfs =
  lstat_tab :: "string \<Rightarrow> error + stat_result"
  stat_tab :: "string \<Rightarrow> error + stat_result"
  listdir_tab :: "string \<Rightarrow> error + string list"
  readlink_tab :: "string \<Rightarrow> error + string"
  data_tab :: "string \<Rightarrow> error + content"
  write_tab :: "string \<Rightarrow> error + stat_result"
  unlink_tab :: "string \<Rightarrow> error option"
  cwd :: string

text \<open>
  The file type bits of a mode, as in \<open>stat.S_ISDIR\<close> and \<open>stat.S_ISLNK\<close>:
  \<open>S_IFMT\<close> is 0o170000 (61440), \<open>S_IFDIR\<close> 0o040000 (16384), \<open>S_IFLNK\<close> 0o120000
  (40960).
\<close>

definition S_ISDIR :: "int \<Rightarrow> bool" where
  "S_ISDIR m = (m AND 61440 = 16384)"

definition S_ISLNK :: "int \<Rightarrow> bool" where
  "S_ISLNK m = (m AND 61440 = 40960)"

definition os_lstat :: "realfs \<Rightarrow> string \<Rightarrow> error + stat_result" where
  "os_lstat fs p = lstat_tab fs p"

definition os_path_exists :: "realfs \<Rightarrow> string \<Rightarrow> bool" where
  "os_path_exists fs p = (case stat_tab fs p of Inl e \<Rightarrow> False | Inr st \<Rightarrow> True)"

definition os_path_isdir :: "realfs \<Rightarrow> string \<Rightarrow> bool" where
  "os_path_isdir fs p =
     (case stat_tab fs p of Inl e \<Rightarrow> False | Inr st \<Rightarrow> S_ISDIR (st_mode st))"

definition os_listdir :: "realfs \<Rightarrow> string \<Rightarrow> error + string list" where
  "os_listdir fs p = listdir_tab fs p"

definition os_readlink :: "realfs \<Rightarrow> string \<Rightarrow> error + string" where
  "os_readlink fs p = readlink_tab fs p"

definition read_file :: "realfs \<Rightarrow> string \<Rightarrow> error + content" where
  "read_file fs p = data_tab fs p"

text \<open>
  Writing a file changes what the filesystem answers for the written path: its
  content, \<open>os.stat\<close>, and \<open>os.lstat\<close> unless the path is a symbolic link (then the
  link stays, and its target is written). The answers for other path strings
  and the directory listings are left as they were: the results below look at
  the filesystem after a write only through the written path.
\<close>

definition write_file :: "realfs \<Rightarrow> string \<Rightarrow> content \<Rightarrow> error + realfs" where
  "write_file fs p c =
     (case write_tab fs p of
        Inl e \<Rightarrow> Inl e
      | Inr st \<Rightarrow>
          Inr (fs\<lparr>data_tab := (data_tab fs)(p := Inr c),
                  stat_tab := (stat_tab fs)(p := Inr st),
                  lstat_tab := (lstat_tab fs)
                    (p := (case lstat_tab fs p of
                             Inl e \<Rightarrow> Inr st
                           | Inr l \<Rightarrow> if S_ISLNK (st_mode l) then Inr l else Inr st))\<rparr>))"

definition os_unlink :: "realfs \<Rightarrow> string \<Rightarrow> error + realfs" where
  "os_unlink fs p =
     (case unlink_tab fs p of
        Some e \<Rightarrow> Inl e
      | None \<Rightarrow>
          Inr (fs\<lparr>lstat_tab := (lstat_tab fs)(p := Inl FileNotFoundError),
                  stat_tab := (stat_tab fs)(p := Inl FileNotFoundError),
                  readlink_tab := (readlink_tab fs)(p := Inl FileNotFoundError),
                  data_tab := (data_tab fs)(p := Inl FileNotFoundError)\<rparr>))"

subsection \<open>\<open>os.path\<close>\<close>

definition startswith_sep :: "string \<Rightarrow> bool" where
  "startswith_sep p = (case p of [] \<Rightarrow> False | c # cs \<Rightarrow> c = CHR ''/'')"

definition endswith_sep :: "string \<Rightarrow> bool" where
  "endswith_sep p = (p \<noteq> [] \<and> last p = CHR ''/'')"

text \<open>\<open>posixpath.join\<close> with two arguments.\<close>

definition os_path_join :: "string \<Rightarrow> string \<Rightarrow> string" where
  "os_path_join a b =
     (if startswith_sep b then b
      else if a = [] \<or> endswith_sep a then a @ b
      else a @ ''/'' @ b)"

text \<open>\<open>str.split('/')\<close> and \<open>'/'.join(..)\<close>.\<close>

fun split_sep :: "string \<Rightarrow> string list" where
  "split_sep [] = [[]]"
| "split_sep (c # cs) =
     (if c = CHR ''/'' then [] # split_sep cs
      else (case split_sep cs of
              [] \<Rightarrow> [[c]]
            | w # ws \<Rightarrow> (c # w) # ws))"

fun join_sep :: "string list \<Rightarrow> string" where
  "join_sep [] = []"
| "join_sep [w] = w"
| "join_sep (w # v # ws) = w @ ''/'' @ join_sep (v # ws)"

text \<open>
  \<open>posixpath.normpath\<close>. \<open>initial_slashes\<close> is 0, 1 or 2: a path that starts with
  exactly two slashes keeps them. One round of the loop over the components
  either skips the component, appends it to \<open>new_comps\<close>, or pops the last one.
\<close>

definition normpath_step :: "nat \<Rightarrow> string list \<Rightarrow> string \<Rightarrow> string list" where
  "normpath_step initial_slashes new_comps name =
     (if name = [] \<or> name = ''.'' then new_comps
      else if name \<noteq> ''..'' \<or> (initial_slashes = 0 \<and> new_comps = [])
                \<or> (new_comps \<noteq> [] \<and> last new_comps = ''..'')
      then new_comps @ [name]
      else if new_comps \<noteq> [] then butlast new_comps
      else new_comps)"

definition count_initial_slashes :: "string \<Rightarrow> nat" where
  "count_initial_slashes path =
     (if startswith_sep path then
        (if take 2 path = ''//'' \<and> take 3 path \<noteq> ''///'' then 2 else 1)
      else 0)"

definition os_path_normpath :: "string \<Rightarrow> string" where
  "os_path_normpath path =
     (if path = [] then ''.''
      else
        (let initial_slashes = count_initial_slashes path;
             comps = foldl (normpath_step initial_slashes) [] (split_sep path);
             joined = replicate initial_slashes CHR ''/'' @ join_sep comps
         in if joined = [] then ''.'' else joined))"

text \<open>\<open>posixpath.abspath\<close>, with the working directory as an argument.\<close>

definition os_path_abspath :: "string \<Rightarrow> string \<Rightarrow> string" where
  "os_path_abspath wd path =
     os_path_normpath (if \<not> startswith_sep path then os_path_join wd path else path)"

text \<open>
  \<open>genericpath.commonprefix\<close> on a list of two lists: it compares the smaller of
  the two with the larger, element by element, and returns the part of the
  smaller before the first difference, which is the longest common prefix of
  the two.
\<close>

fun commonprefix :: "'a list \<Rightarrow> 'a list \<Rightarrow> 'a list" where
  "commonprefix (x # xs) (y # ys) = (if x = y then x # commonprefix xs ys else [])"
| "commonprefix xs ys = []"

text \<open>
  \<open>posixpath.relpath(path, start)\<close>. \<open>join(*rel_list)\<close> joins the first element
  with the others from left to right.
\<close>

definition os_path_relpath :: "string \<Rightarrow> string \<Rightarrow> string \<Rightarrow> error + string" where
  "os_path_relpath wd path start =
     (if path = [] then Inl ValueError
      else
        (let start_list = filter (\<lambda>x. x \<noteq> []) (split_sep (os_path_abspath wd start));
             path_list = filter (\<lambda>x. x \<noteq> []) (split_sep (os_path_abspath wd path));
             i = length (commonprefix start_list path_list);
             rel_list = replicate (length start_list - i) ''..'' @ drop i path_list
         in if rel_list = [] then Inr ''.''
            else Inr (foldl os_path_join (hd rel_list) (tl rel_list))))"

subsection \<open>The class\<close>

definition REMAPPER_PERM_FILE :: string where
  "REMAPPER_PERM_FILE = ''.fs_perm_remapper.json''"

record fs_state =
  disk :: realfs
  src_path :: string
  permissions :: store

text \<open>\<open>__init__(self, path)\<close>, run over the filesystem \<open>fs\<close>.\<close>

definition PermissionRemappedFilesystem :: "realfs \<Rightarrow> string \<Rightarrow> error + fs_state" where
  "PermissionRemappedFilesystem fs path =
     (if os_path_exists fs (os_path_join path REMAPPER_PERM_FILE) then
        (case read_file fs (os_path_join path REMAPPER_PERM_FILE) of
           Inl e \<Rightarrow> Inl e
         | Inr text \<Rightarrow>
             (case json_load text of
                Inl e \<Rightarrow> Inl e
              | Inr d \<Rightarrow> Inr \<lparr>disk = fs, src_path = path, permissions = d\<rparr>))
      else Inr \<lparr>disk = fs, src_path = path, permissions = []\<rparr>)"

text \<open>\<open>path[0]\<close> raises \<open>IndexError\<close> on the empty string.\<close>

definition get_src_path :: "fs_state \<Rightarrow> string \<Rightarrow> error + string" where
  "get_src_path s path =
     (case path of
        [] \<Rightarrow> Inl IndexError
      | c # cs \<Rightarrow> Inr (os_path_join (src_path s) (if c = CHR ''/'' then cs else path)))"

definition get_permissions :: "fs_state \<Rightarrow> string \<Rightarrow> error + (perms \<times> fs_state)" where
  "get_permissions s path =
     (case (if \<not> contains (permissions s) path then
              (case get_src_path s path of
                 Inl e \<Rightarrow> Inl e
               | Inr real_path \<Rightarrow>
                   (case os_lstat (disk s) real_path of
                      Inl e \<Rightarrow> Inl e
                    | Inr stats \<Rightarrow>
                        Inr (s\<lparr>permissions := setitem (permissions s) path
                                 \<lparr>uid = 0, gid = 0, mode = st_mode stats\<rparr>\<rparr>)))
            else Inr s) of
        Inl e \<Rightarrow> Inl e
      | Inr s' \<Rightarrow>
          (case getitem (permissions s') path of
             Inl e \<Rightarrow> Inl e
           | Inr p \<Rightarrow> Inr (p, s')))"

text \<open>
  \<open>list.remove(x)\<close> deletes the first occurrence of \<open>x\<close> and raises \<open>ValueError\<close>
  when there is none.
\<close>

definition list_remove :: "'a list \<Rightarrow> 'a \<Rightarrow> error + 'a list" where
  "list_remove xs x = (if x \<in> set xs then Inr (remove1 x xs) else Inl ValueError)"

text \<open>
  \<open>readdir\<close> is a generator; the bridge consumes it to the end, so the model
  returns the whole list, or the exception the body raises.
\<close>

definition readdir :: "fs_state \<Rightarrow> string \<Rightarrow> int \<Rightarrow> error + string list" where
  "readdir s path fh =
     (case get_src_path s path of
        Inl e \<Rightarrow> Inl e
      | Inr real_path \<Rightarrow>
          (case (if os_path_isdir (disk s) real_path then
                   (case os_listdir (disk s) real_path of
                      Inl e \<Rightarrow> Inl e
                    | Inr names \<Rightarrow> Inr ([''.'', ''..''] @ names))
                 else Inr [''.'', ''..'']) of
             Inl e \<Rightarrow> Inl e
           | Inr entries \<Rightarrow>
               if path = ''/'' then list_remove entries REMAPPER_PERM_FILE
               else Inr entries))"

definition getattr :: "fs_state \<Rightarrow> string \<Rightarrow> error + (stat_result \<times> fs_state)" where
  "getattr s path =
     (case get_src_path s path of
        Inl e \<Rightarrow> Inl e
      | Inr real_path \<Rightarrow>
          (case os_lstat (disk s) real_path of
             Inl e \<Rightarrow> Inl e
           | Inr stats \<Rightarrow>
               (case get_permissions s path of
                  Inl e \<Rightarrow> Inl e
                | Inr (p, s') \<Rightarrow>
                    Inr (\<lparr>st_mode = mode p,
                          st_uid = uid p,
                          st_gid = gid p,
                          st_nlink = st_nlink stats,
                          st_size = st_size stats,
                          st_blocks = st_blocks stats,
                          st_blksize = st_blksize stats,
                          st_ino = st_ino stats,
                          st_dev = st_dev stats,
                          st_ctime = st_ctime stats,
                          st_mtime = st_mtime stats,
                          st_atime = st_atime stats\<rparr>, s'))))"

definition chown :: "fs_state \<Rightarrow> string \<Rightarrow> int \<Rightarrow> int \<Rightarrow> error + fs_state" where
  "chown s path u g =
     (if \<not> contains (permissions s) path then
        (case get_src_path s path of
           Inl e \<Rightarrow> Inl e
         | Inr real_path \<Rightarrow>
             (case os_lstat (disk s) real_path of
                Inl e \<Rightarrow> Inl e
              | Inr stats \<Rightarrow>
                  Inr (s\<lparr>permissions := setitem (permissions s) path
                           \<lparr>uid = u, gid = g, mode = st_mode stats\<rparr>\<rparr>)))
      else
        (case getitem (permissions s) path of
           Inl e \<Rightarrow> Inl e
         | Inr p \<Rightarrow>
             Inr (s\<lparr>permissions := setitem (permissions s) path (p\<lparr>uid := u, gid := g\<rparr>)\<rparr>)))"

definition chmod :: "fs_state \<Rightarrow> string \<Rightarrow> int \<Rightarrow> error + fs_state" where
  "chmod s path m =
     (if \<not> contains (permissions s) path then
        Inr (s\<lparr>permissions := setitem (permissions s) path \<lparr>uid = 0, gid = 0, mode = m\<rparr>\<rparr>)
      else
        (case getitem (permissions s) path of
           Inl e \<Rightarrow> Inl e
         | Inr p \<Rightarrow>
             Inr (s\<lparr>permissions := setitem (permissions s) path (p\<lparr>mode := m\<rparr>)\<rparr>)))"

definition readlink :: "fs_state \<Rightarrow> string \<Rightarrow> error + string" where
  "readlink s path =
     (case get_src_path s path of
        Inl e \<Rightarrow> Inl e
      | Inr real_path \<Rightarrow>
          (case os_readlink (disk s) real_path of
             Inl e \<Rightarrow> Inl e
           | Inr target \<Rightarrow>
               (case target of
                  [] \<Rightarrow> Inl IndexError
                | c # cs \<Rightarrow>
                    if c = CHR ''/'' then os_path_relpath (cwd (disk s)) target (src_path s)
                    else Inr target)))"

definition unlink :: "fs_state \<Rightarrow> string \<Rightarrow> error + fs_state" where
  "unlink s path =
     (case get_src_path s path of
        Inl e \<Rightarrow> Inl e
      | Inr real_path \<Rightarrow>
          (case os_unlink (disk s) real_path of
             Inl e \<Rightarrow> Inl e
           | Inr fs' \<Rightarrow> Inr (s\<lparr>disk := fs'\<rparr>)))"

text \<open>The loop of \<open>destroy\<close>, over the items that are left, with \<open>final_perms\<close> so far.\<close>

fun destroy_loop :: "fs_state \<Rightarrow> store \<Rightarrow> store \<Rightarrow> error + store" where
  "destroy_loop s [] final_perms = Inr final_perms"
| "destroy_loop s ((path, p) # items) final_perms =
     (case get_src_path s path of
        Inl e \<Rightarrow> Inl e
      | Inr real_path \<Rightarrow>
          (case os_lstat (disk s) real_path of
             Inl e \<Rightarrow> Inl e
           | Inr stats \<Rightarrow>
               if st_mode stats = mode p \<and> uid p = 0 \<and> gid p = 0
               then destroy_loop s items final_perms
               else destroy_loop s items (setitem final_perms path p)))"

definition destroy :: "fs_state \<Rightarrow> error + fs_state" where
  "destroy s =
     (case destroy_loop s (permissions s) [] of
        Inl e \<Rightarrow> Inl e
      | Inr final_perms \<Rightarrow>
          (case write_file (disk s) (os_path_join (src_path s) REMAPPER_PERM_FILE)
                  (json_dump final_perms) of
             Inl e \<Rightarrow> Inl e
           | Inr fs' \<Rightarrow> Inr (s\<lparr>disk := fs'\<rparr>)))"

subsection \<open>Vocabulary of the specification\<close>

abbreviation sidecar :: "string \<Rightarrow> string" where
  "sidecar src \<equiv> os_path_join src REMAPPER_PERM_FILE"

text \<open>
  The real file's current mode for a virtual path, as every method reads it:
  \<open>os.lstat(self.get_src_path(path)).st_mode\<close>.
\<close>

definition real_mode :: "fs_state \<Rightarrow> string \<Rightarrow> error + int" where
  "real_mode s path =
     (case get_src_path s path of
        Inl e \<Rightarrow> Inl e
      | Inr real_path \<Rightarrow>
          (case os_lstat (disk s) real_path of
             Inl e \<Rightarrow> Inl e
           | Inr stats \<Rightarrow> Inr (st_mode stats)))"

definition real_file_exists :: "fs_state \<Rightarrow> string \<Rightarrow> bool" where
  "real_file_exists s path = (case real_mode s path of Inl e \<Rightarrow> False | Inr m \<Rightarrow> True)"

text \<open>
  A trivial default, in the words of the specification: owner 0/0 and the mode
  equal to the real file's current mode.
\<close>

definition trivial_default :: "fs_state \<Rightarrow> string \<Rightarrow> perms \<Rightarrow> bool" where
  "trivial_default s path p = (uid p = 0 \<and> gid p = 0 \<and> real_mode s path = Inr (mode p))"

text \<open>
  The state a call leaves behind: the new state, or the old one when the call
  raised. \<open>getattrs\<close> is a session of \<open>getattr\<close> calls, one per path of the list.
\<close>

definition after :: "fs_state \<Rightarrow> error + fs_state \<Rightarrow> fs_state" where
  "after s r = (case r of Inl e \<Rightarrow> s | Inr s' \<Rightarrow> s')"

definition after_getattr :: "fs_state \<Rightarrow> string \<Rightarrow> fs_state" where
  "after_getattr s path = (case getattr s path of Inl e \<Rightarrow> s | Inr (a, s') \<Rightarrow> s')"

definition getattrs :: "fs_state \<Rightarrow> string list \<Rightarrow> fs_state" where
  "getattrs s paths = foldl after_getattr s paths"

text \<open>What the sidecar file of a state holds, if the state is there and the file can be read.\<close>

definition sidecar_content :: "error + fs_state \<Rightarrow> content option" where
  "sidecar_content r =
     (case r of
        Inl e \<Rightarrow> None
      | Inr s \<Rightarrow>
          (case read_file (disk s) (sidecar (src_path s)) of
             Inl e \<Rightarrow> None
           | Inr c \<Rightarrow> Some c))"

definition sidecar_exists :: "error + fs_state \<Rightarrow> bool" where
  "sidecar_exists r =
     (case r of
        Inl e \<Rightarrow> False
      | Inr s \<Rightarrow> os_path_exists (disk s) (sidecar (src_path s)))"

text \<open>
  \<open>chmod\<close> then \<open>chown\<close> on one path, and the two calls in the other order; a call
  that raises leaves the state as it was and the next call is still made.
\<close>

definition chmod_then_chown :: "fs_state \<Rightarrow> string \<Rightarrow> int \<Rightarrow> int \<Rightarrow> int \<Rightarrow> fs_state" where
  "chmod_then_chown s path m u g =
     after (after s (chmod s path m)) (chown (after s (chmod s path m)) path u g)"

definition chown_then_chmod :: "fs_state \<Rightarrow> string \<Rightarrow> int \<Rightarrow> int \<Rightarrow> int \<Rightarrow> fs_state" where
  "chown_then_chmod s path m u g =
     after (after s (chown s path u g)) (chmod (after s (chown s path u g)) path m)"

text \<open>Mount, one \<open>getattr('/')\<close>, unmount.\<close>

definition mount_getattr_unmount :: "realfs \<Rightarrow> string \<Rightarrow> error + fs_state" where
  "mount_getattr_unmount fs src =
     (case PermissionRemappedFilesystem fs src of
        Inl e \<Rightarrow> Inl e
      | Inr s0 \<Rightarrow> destroy (after_getattr s0 ''/''))"

subsection \<open>Example filesystems\<close>

definition dir_stat :: stat_result where
  "dir_stat =
     \<lparr>st_mode = 16877, st_uid = 1000, st_gid = 1000, st_nlink = 2, st_size = 4096,
      st_blocks = 8, st_blksize = 4096, st_ino = 11, st_dev = 2049,
      st_ctime = 1700000000, st_mtime = 1700000000, st_atime = 1700000000\<rparr>"

definition file_stat :: stat_result where
  "file_stat =
     \<lparr>st_mode = 33188, st_uid = 1000, st_gid = 1000, st_nlink = 1, st_size = 2,
      st_blocks = 8, st_blksize = 4096, st_ino = 12, st_dev = 2049,
      st_ctime = 1700000001, st_mtime = 1700000001, st_atime = 1700000001\<rparr>"

text \<open>
  The directory \<open>/srv/data\<close>, empty, with no sidecar file; the sidecar file can
  be created.
\<close>

definition empty_src_fs :: realfs where
  "empty_src_fs =
     \<lparr>lstat_tab = (\<lambda>p. if p = ''/srv/data'' \<or> p = ''/srv/data/'' then Inr dir_stat
                        else Inl FileNotFoundError),
      stat_tab = (\<lambda>p. if p = ''/srv/data'' \<or> p = ''/srv/data/'' then Inr dir_stat
                       else Inl FileNotFoundError),
      listdir_tab = (\<lambda>p. if p = ''/srv/data'' \<or> p = ''/srv/data/'' then Inr []
                          else Inl FileNotFoundError),
      readlink_tab = (\<lambda>p. if p = ''/srv/data'' \<or> p = ''/srv/data/'' then Inl OSError
                           else Inl FileNotFoundError),
      data_tab = (\<lambda>p. if p = ''/srv/data'' \<or> p = ''/srv/data/'' then Inl OSError
                       else Inl FileNotFoundError),
      write_tab = (\<lambda>p. if p = ''/srv/data/.fs_perm_remapper.json'' then Inr file_stat
                        else Inl OSError),
      unlink_tab = (\<lambda>p. Some (if p = ''/srv/data'' \<or> p = ''/srv/data/'' then OSError
                                 else FileNotFoundError)),
      cwd = ''/''\<rparr>"

definition empty_src_state :: fs_state where
  "empty_src_state = \<lparr>disk = empty_src_fs, src_path = ''/srv/data'', permissions = []\<rparr>"



text \<open>
  The directory \<open>/srv/data\<close> with a regular file \<open>a\<close>, a sidecar file with the given
  content, and four symbolic links: \<open>l\<close> to \<open>/srv/data\<close>, \<open>r\<close> to \<open>a\<close>, \<open>d\<close> to
  \<open>/srv/data/a\<close> and \<open>p\<close> to \<open>/etc/passwd\<close>, a file outside the directory that can
  be read and not written. A file that is not the sidecar holds a text that is
  not JSON.
\<close>

definition link_stat :: stat_result where
  "link_stat =
     \<lparr>st_mode = 41471, st_uid = 1000, st_gid = 1000, st_nlink = 1, st_size = 9,
      st_blocks = 0, st_blksize = 4096, st_ino = 13, st_dev = 2049,
      st_ctime = 1700000002, st_mtime = 1700000002, st_atime = 1700000002\<rparr>"

definition small_fs :: "content \<Rightarrow> realfs" where
  "small_fs c =
     \<lparr>lstat_tab = (\<lambda>p. if p = ''/srv/data'' \<or> p = ''/srv/data/'' then Inr dir_stat
                        else if p = ''/srv/data/a'' \<or> p = ''/etc/passwd'' then Inr file_stat
                        else if p = ''/srv/data/l'' \<or> p = ''/srv/data/r'' \<or>
                                p = ''/srv/data/d'' \<or> p = ''/srv/data/p'' then Inr link_stat
                        else if p = ''/srv/data/.fs_perm_remapper.json'' then Inr file_stat
                        else Inl FileNotFoundError),
      stat_tab = (\<lambda>p. if p = ''/srv/data'' \<or> p = ''/srv/data/'' \<or> p = ''/srv/data/l''
                       then Inr dir_stat
                       else if p = ''/srv/data/a'' \<or> p = ''/srv/data/r'' \<or>
                               p = ''/srv/data/d'' \<or> p = ''/srv/data/p'' \<or>
                               p = ''/etc/passwd'' then Inr file_stat
                       else if p = ''/srv/data/.fs_perm_remapper.json'' then Inr file_stat
                       else Inl FileNotFoundError),
      listdir_tab = (\<lambda>p. if p = ''/srv/data'' \<or> p = ''/srv/data/'' \<or> p = ''/srv/data/l''
                          then Inr [''a'', ''.fs_perm_remapper.json'', ''l'', ''r'', ''d'', ''p'']
                          else Inl OSError),
      readlink_tab = (\<lambda>p. if p = ''/srv/data/l'' then Inr ''/srv/data''
                           else if p = ''/srv/data/r'' then Inr ''a''
                           else if p = ''/srv/data/d'' then Inr ''/srv/data/a''
                           else if p = ''/srv/data/p'' then Inr ''/etc/passwd''
                           else Inl OSError),
      data_tab = (\<lambda>p. if p = ''/srv/data/.fs_perm_remapper.json'' then Inr c
                       else if p = ''/srv/data/a'' \<or> p = ''/srv/data/r'' \<or>
                               p = ''/srv/data/d'' \<or> p = ''/srv/data/p'' \<or>
                               p = ''/etc/passwd'' then Inr Unparsable
                       else Inl OSError),
      write_tab = (\<lambda>p. if p = ''/srv/data/.fs_perm_remapper.json'' \<or> p = ''/srv/data/a'' \<or>
                           p = ''/srv/data/r'' \<or> p = ''/srv/data/d'' then Inr file_stat
                        else Inl OSError),
      unlink_tab = (\<lambda>p. if p = ''/srv/data/a'' \<or> p = ''/srv/data/l'' \<or> p = ''/srv/data/r'' \<or>
                            p = ''/srv/data/d'' \<or> p = ''/srv/data/p'' \<or>
                            p = ''/srv/data/.fs_perm_remapper.json''
                         then None
                         else Some OSError),
      cwd = ''/''\<rparr>"

definition small_state :: "store \<Rightarrow> fs_state" where
  "small_state d = \<lparr>disk = small_fs (JSON d), src_path = ''/srv/data'', permissions = d\<rparr>"

subsection \<open>Invariants used in the proofs\<close>

text \<open>A store that holds nothing but trivial defaults, under distinct keys.\<close>

definition only_defaults :: "fs_state \<Rightarrow> bool" where
  "only_defaults s =
     (distinct (map fst (permissions s)) \<and>
      (\<forall>(path, p) \<in> set (permissions s). trivial_default s path p))"

text \<open>A path component: not empty, and without a separator.\<close>

definition plain_name :: "string \<Rightarrow> bool" where
  "plain_name w = (w \<noteq> [] \<and> CHR ''/'' \<notin> set w)"

text \<open>
  The names along a path, and a list of names as \<open>normpath\<close> leaves them in an
  absolute path: plain names, none of them \<open>.\<close> or \<open>..\<close>.
\<close>

definition components :: "string \<Rightarrow> string list" where
  "components p = filter (\<lambda>x. x \<noteq> []) (split_sep p)"

definition clean :: "string list \<Rightarrow> bool" where
  "clean ns = (\<forall>x \<in> set ns. plain_name x \<and> x \<noteq> ''.'' \<and> x \<noteq> ''..'')"

section \<open>Properties\<close>

subsection \<open>Dictionaries and the JSON text\<close>

lemma contains_iff: "contains d k \<longleftrightarrow> k \<in> fst ` set d"
  by (simp add: contains_def map_of_eq_None_iff)

lemma setitem_fresh: "\<not> contains d k \<Longrightarrow> setitem d k v = d @ [(k, v)]"
  by (induction d) (auto simp: contains_def setitem_def)

lemma getitem_setitem: "getitem (setitem d k v) k' = (if k' = k then Inr v else getitem d k')"
  by (simp add: getitem_def setitem_def update_conv')

lemma contains_setitem: "contains (setitem d k v) k' \<longleftrightarrow> k' = k \<or> contains d k'"
  by (simp add: contains_def setitem_def update_conv')

lemma getitem_contains: "contains d k \<Longrightarrow> \<exists>v. getitem d k = Inr v \<and> map_of d k = Some v"
  by (auto simp: contains_def getitem_def)

lemma setitem_twice: "setitem (setitem d k v) k w = setitem d k w"
  by (simp add: setitem_def)

lemma distinct_setitem: "distinct (map fst d) \<Longrightarrow> distinct (map fst (setitem d k v))"
  by (simp add: setitem_def distinct_update)

text \<open>Assigning members with distinct new keys appends them in their order.\<close>

lemma foldl_setitem_append:
  "distinct (map fst (acc @ kvs)) \<Longrightarrow>
   foldl (\<lambda>d (k, v). setitem d k v) acc kvs = acc @ kvs"
proof (induction kvs arbitrary: acc)
  case Nil
  then show ?case by simp
next
  case (Cons kv kvs)
  obtain k v where kv: "kv = (k, v)" by (cases kv)
  from Cons.prems have fresh: "\<not> contains acc k"
    by (auto simp: kv contains_iff)
  from Cons.prems have "distinct (map fst ((acc @ [(k, v)]) @ kvs))"
    by (simp add: kv)
  then have "foldl (\<lambda>d (k, v). setitem d k v) (acc @ [(k, v)]) kvs = (acc @ [(k, v)]) @ kvs"
    by (rule Cons.IH)
  then show ?case by (simp add: kv setitem_fresh [OF fresh])
qed

lemma json_load_dump: "distinct (map fst d) \<Longrightarrow> json_load (json_dump d) = Inr d"
  using foldl_setitem_append [of "[]" d] by (simp add: json_load_def json_dump_def)

subsection \<open>The real mode of a path\<close>

lemma get_src_path_permissions [simp]:
  "get_src_path (s\<lparr>permissions := d\<rparr>) path = get_src_path s path"
  by (cases path) (simp_all add: get_src_path_def)

lemma real_mode_permissions [simp]:
  "real_mode (s\<lparr>permissions := d\<rparr>) path = real_mode s path"
  by (simp add: real_mode_def split: sum.splits)

lemma trivial_default_permissions [simp]:
  "trivial_default (s\<lparr>permissions := d\<rparr>) path p = trivial_default s path p"
  by (simp add: trivial_default_def)

lemma trivial_default_exists: "trivial_default s path p \<Longrightarrow> real_file_exists s path"
  by (simp add: trivial_default_def real_file_exists_def)

lemma real_mode_cases:
  "real_file_exists s path \<Longrightarrow>
   \<exists>rp st. get_src_path s path = Inr rp \<and> os_lstat (disk s) rp = Inr st \<and>
     real_mode s path = Inr (st_mode st)"
  by (auto simp: real_file_exists_def real_mode_def split: sum.splits)

subsection \<open>\<open>destroy\<close>\<close>

lemma write_file_ok:
  assumes "write_tab fs p = Inr st"
  shows "\<exists>fs'. write_file fs p c = Inr fs' \<and> read_file fs' p = Inr c \<and> os_path_exists fs' p"
  using assms by (simp add: write_file_def read_file_def os_path_exists_def)

text \<open>
  When every item resolves, the loop adds to \<open>final_perms\<close> the items that are not
  trivial defaults, in their order.
\<close>

lemma destroy_loop_filter:
  assumes "\<forall>(path, p) \<in> set items. real_file_exists s path"
    and "distinct (map fst (acc @ items))"
  shows "destroy_loop s items acc =
         Inr (acc @ [(path, p) \<leftarrow> items. \<not> trivial_default s path p])"
  using assms
proof (induction items arbitrary: acc)
  case Nil
  then show ?case by simp
next
  case (Cons item items)
  obtain path p where item: "item = (path, p)" by (cases item)
  from Cons.prems(1) have ex: "real_file_exists s path" by (simp add: item)
  then obtain rp st where rp: "get_src_path s path = Inr rp"
    and st: "os_lstat (disk s) rp = Inr st" and rm: "real_mode s path = Inr (st_mode st)"
    using real_mode_cases by blast
  from Cons.prems(1) have rest: "\<forall>(path, p) \<in> set items. real_file_exists s path" by simp
  show ?case
  proof (cases "st_mode st = mode p \<and> uid p = 0 \<and> gid p = 0")
    case True
    then have triv: "trivial_default s path p" by (simp add: trivial_default_def rm)
    from Cons.prems(2) have "distinct (map fst (acc @ items))" by (simp add: item)
    with rest have "destroy_loop s items acc =
         Inr (acc @ [(path, p) \<leftarrow> items. \<not> trivial_default s path p])"
      by (rule Cons.IH)
    with True triv show ?thesis by (simp add: item rp st)
  next
    case False
    then have ntriv: "\<not> trivial_default s path p" by (auto simp: trivial_default_def rm)
    from Cons.prems(2) have fresh: "\<not> contains acc path" by (auto simp: item contains_iff)
    from Cons.prems(2) have "distinct (map fst ((acc @ [(path, p)]) @ items))"
      by (simp add: item)
    with rest have "destroy_loop s items (acc @ [(path, p)]) =
         Inr ((acc @ [(path, p)]) @ [(path, p) \<leftarrow> items. \<not> trivial_default s path p])"
      by (rule Cons.IH)
    with False ntriv show ?thesis by (auto simp add: item rp st setitem_fresh [OF fresh])
  qed
qed

lemma destroy_writes_filter:
  assumes "distinct (map fst (permissions s))"
    and "\<forall>(path, p) \<in> set (permissions s). real_file_exists s path"
    and "write_tab (disk s) (sidecar (src_path s)) = Inr wst"
  shows "\<exists>fs'. destroy s = Inr (s\<lparr>disk := fs'\<rparr>) \<and>
           read_file fs' (sidecar (src_path s)) =
             Inr (JSON [(path, p) \<leftarrow> permissions s. \<not> trivial_default s path p]) \<and>
           os_path_exists fs' (sidecar (src_path s))"
proof -
  from assms(1) have "distinct (map fst ([] @ permissions s))" by simp
  with assms(2) have loop: "destroy_loop s (permissions s) [] =
      Inr ([] @ [(path, p) \<leftarrow> permissions s. \<not> trivial_default s path p])"
    by (rule destroy_loop_filter)
  from write_file_ok [OF assms(3)] obtain fs' where
    "write_file (disk s) (sidecar (src_path s))
       (json_dump [(path, p) \<leftarrow> permissions s. \<not> trivial_default s path p]) = Inr fs'"
    "read_file fs' (sidecar (src_path s)) =
       Inr (json_dump [(path, p) \<leftarrow> permissions s. \<not> trivial_default s path p])"
    "os_path_exists fs' (sidecar (src_path s))"
    by blast
  with loop show ?thesis by (auto simp: destroy_def json_dump_def)
qed

text \<open>When \<open>destroy\<close> returns, every recorded path resolved and the file was written.\<close>

lemma destroy_loop_success:
  "destroy_loop s items acc = Inr out \<Longrightarrow> \<forall>(path, p) \<in> set items. real_file_exists s path"
proof (induction items arbitrary: acc)
  case Nil
  then show ?case by simp
next
  case (Cons item items)
  obtain path p where item: "item = (path, p)" by (cases item)
  from Cons.prems obtain rp st where rp: "get_src_path s path = Inr rp"
    and st: "os_lstat (disk s) rp = Inr st"
    by (auto simp: item split: sum.splits)
  then have here: "real_file_exists s path"
    by (simp add: real_file_exists_def real_mode_def)
  from Cons.prems rp st have "\<exists>acc'. destroy_loop s items acc' = Inr out"
    by (auto simp: item split: if_splits)
  then have "\<forall>(path, p) \<in> set items. real_file_exists s path"
    using Cons.IH by blast
  with here show ?case by (simp add: item)
qed

lemma destroy_success:
  assumes "destroy s = Inr s'"
  shows "(\<forall>(path, p) \<in> set (permissions s). real_file_exists s path) \<and>
         (\<exists>wst. write_tab (disk s) (sidecar (src_path s)) = Inr wst)"
proof -
  from assms obtain final where loop: "destroy_loop s (permissions s) [] = Inr final"
    and w: "\<exists>fs'. write_file (disk s) (sidecar (src_path s)) (json_dump final) = Inr fs'"
    by (auto simp: destroy_def split: sum.splits)
  from loop have "\<forall>(path, p) \<in> set (permissions s). real_file_exists s path"
    by (rule destroy_loop_success)
  moreover from w have "\<exists>wst. write_tab (disk s) (sidecar (src_path s)) = Inr wst"
    by (auto simp: write_file_def split: sum.splits)
  ultimately show ?thesis by blast
qed

lemma filter_all_nontrivial:
  assumes "\<forall>(path, p) \<in> set d. \<not> trivial_default s path p"
  shows "[(path, p) \<leftarrow> d. \<not> trivial_default s path p] = d"
  using assms by (induction d) auto

text \<open>
  The loop stops at the first item whose real path does not resolve, with the
  exception of \<open>os.lstat\<close> (or of \<open>get_src_path\<close>).
\<close>

lemma destroy_loop_fails:
  assumes "\<exists>(q, r) \<in> set items. real_mode s q = Inl E"
    and "\<forall>(q, r) \<in> set items. \<forall>e. real_mode s q = Inl e \<longrightarrow> e = E"
  shows "destroy_loop s items acc = Inl E"
  using assms
proof (induction items arbitrary: acc)
  case Nil
  then show ?case by simp
next
  case (Cons item items)
  obtain q r where item: "item = (q, r)" by (cases item)
  show ?case
  proof (cases "real_mode s q")
    case (Inl e)
    with Cons.prems(2) have "e = E" by (simp add: item)
    with Inl show ?thesis
      by (auto simp: item real_mode_def split: sum.splits)
  next
    case (Inr m)
    with Cons.prems(1) have "\<exists>(q, r) \<in> set items. real_mode s q = Inl E"
      by (auto simp: item)
    moreover from Cons.prems(2)
    have "\<forall>(q, r) \<in> set items. \<forall>e. real_mode s q = Inl e \<longrightarrow> e = E"
      by simp
    ultimately have "\<And>acc. destroy_loop s items acc = Inl E"
      by (rule Cons.IH)
    with Inr show ?thesis
      by (auto simp: item real_mode_def split: sum.splits)
  qed
qed

text \<open>When some item does not resolve, the loop raises.\<close>

lemma destroy_loop_raises:
  assumes "\<exists>(q, r) \<in> set items. \<exists>e. real_mode s q = Inl e"
  shows "\<exists>e. destroy_loop s items acc = Inl e"
  using assms
proof (induction items arbitrary: acc)
  case Nil
  then show ?case by simp
next
  case (Cons item items)
  obtain q r where item: "item = (q, r)" by (cases item)
  show ?case
  proof (cases "real_mode s q")
    case (Inl e)
    then show ?thesis
      by (auto simp: item real_mode_def split: sum.splits)
  next
    case (Inr m)
    with Cons.prems have "\<exists>(q, r) \<in> set items. \<exists>e. real_mode s q = Inl e"
      by (auto simp: item)
    then have "\<And>acc. \<exists>e. destroy_loop s items acc = Inl e"
      by (rule Cons.IH)
    with Inr show ?thesis
      by (auto simp: item real_mode_def split: sum.splits)
  qed
qed

text \<open>The loop raises the exception of the first item that does not resolve.\<close>

lemma destroy_loop_first_failure:
  assumes "\<forall>(path, p) \<in> set xs. real_file_exists s path"
    and "real_mode s q = Inl e"
  shows "destroy_loop s (xs @ (q, r) # ys) acc = Inl e"
  using assms(1)
proof (induction xs arbitrary: acc)
  case Nil
  from assms(2) show ?case
    by (auto simp: real_mode_def split: sum.splits)
next
  case (Cons item xs)
  obtain path p where item: "item = (path, p)" by (cases item)
  from Cons.prems have "real_file_exists s path" by (simp add: item)
  then obtain rp st where "get_src_path s path = Inr rp" "os_lstat (disk s) rp = Inr st"
    using real_mode_cases by blast
  moreover from Cons.prems have "\<And>acc. destroy_loop s (xs @ (q, r) # ys) acc = Inl e"
    by (intro Cons.IH) simp
  ultimately show ?case by (simp add: item)
qed

text \<open>The passthrough \<open>unlink\<close> leaves the store as it is.\<close>

lemma unlink_keeps_permissions:
  "unlink s path = Inr s' \<Longrightarrow> permissions s' = permissions s \<and> src_path s' = src_path s"
  by (auto simp: unlink_def split: sum.splits)

subsection \<open>\<open>get_permissions\<close>, \<open>getattr\<close>, \<open>chmod\<close>\<close>

lemma get_permissions_fresh:
  assumes "\<not> contains (permissions s) path"
    and "get_src_path s path = Inr rp" and "os_lstat (disk s) rp = Inr stats"
  shows "get_permissions s path =
         Inr (\<lparr>uid = 0, gid = 0, mode = st_mode stats\<rparr>,
              s\<lparr>permissions :=
                   permissions s @ [(path, \<lparr>uid = 0, gid = 0, mode = st_mode stats\<rparr>)]\<rparr>)"
  using assms by (simp add: get_permissions_def getitem_setitem setitem_fresh [symmetric])

lemma get_permissions_present:
  assumes "contains (permissions s) path"
  shows "\<exists>p. get_permissions s path = Inr (p, s) \<and> map_of (permissions s) path = Some p"
  using assms getitem_contains [OF assms] by (auto simp: get_permissions_def)


lemma get_src_path_disk [simp]:
  "get_src_path (s\<lparr>disk := fs'\<rparr>) path = get_src_path s path"
  by (cases path) (simp_all add: get_src_path_def)


lemma getattr_fresh:
  assumes "\<not> contains (permissions s) path"
    and "get_src_path s path = Inr rp" and "os_lstat (disk s) rp = Inr stats"
  shows "\<exists>a s1. getattr s path = Inr (a, s1) \<and>
           s1 = s\<lparr>permissions :=
                     permissions s @ [(path, \<lparr>uid = 0, gid = 0, mode = st_mode stats\<rparr>)]\<rparr> \<and>
           st_mode a = st_mode stats \<and> st_uid a = 0 \<and> st_gid a = 0 \<and>
           get_permissions s path = Inr (\<lparr>uid = 0, gid = 0, mode = st_mode stats\<rparr>, s1) \<and>
           get_permissions s1 path = Inr (\<lparr>uid = 0, gid = 0, mode = st_mode stats\<rparr>, s1) \<and>
           getattr s1 path = Inr (a, s1)"
proof -
  let ?r = "\<lparr>uid = 0, gid = 0, mode = st_mode stats\<rparr>"
  let ?s1 = "s\<lparr>permissions := permissions s @ [(path, ?r)]\<rparr>"
  have first: "get_permissions s path = Inr (?r, ?s1)"
    using assms by (rule get_permissions_fresh)
  have present: "contains (permissions ?s1) path"
    by (simp add: contains_def)
  have "getitem (permissions ?s1) path = Inr ?r"
    using assms(1) by (simp add: getitem_def contains_def map_add_def)
  with present have again: "get_permissions ?s1 path = Inr (?r, ?s1)"
    by (simp add: get_permissions_def)
  have src: "get_src_path ?s1 path = Inr rp"
    using assms(2) by simp
  show ?thesis
    using first again src assms(2,3) by (simp add: getattr_def)
qed

lemma chmod_total: "\<exists>s'. chmod s path m = Inr s'"
  using getitem_contains [of "permissions s" path]
  by (cases "contains (permissions s) path") (auto simp: chmod_def)

text \<open>A \<open>getattr\<close> call either leaves the state alone or appends one default entry.\<close>

lemma after_getattr_cases:
  "after_getattr s path = s \<or>
   (\<exists>rp stats. \<not> contains (permissions s) path \<and> get_src_path s path = Inr rp \<and>
      os_lstat (disk s) rp = Inr stats \<and>
      after_getattr s path =
        s\<lparr>permissions :=
             permissions s @ [(path, \<lparr>uid = 0, gid = 0, mode = st_mode stats\<rparr>)]\<rparr>)"
proof (cases "contains (permissions s) path")
  case True
  from get_permissions_present [OF True] obtain p where "get_permissions s path = Inr (p, s)"
    by blast
  then show ?thesis
    by (simp add: after_getattr_def getattr_def split: sum.splits)
next
  case False
  show ?thesis
  proof (cases "get_src_path s path")
    case (Inl e)
    then show ?thesis by (simp add: after_getattr_def getattr_def)
  next
    case (Inr rp)
    show ?thesis
    proof (cases "os_lstat (disk s) rp")
      case (Inl e)
      with Inr show ?thesis by (simp add: after_getattr_def getattr_def)
    next
      case (Inr stats)
      from get_permissions_fresh [OF False \<open>get_src_path s path = Inr rp\<close> Inr]
      show ?thesis
        using False \<open>get_src_path s path = Inr rp\<close> Inr
        by (simp add: after_getattr_def getattr_def)
    qed
  qed
qed

lemma after_getattr_only_defaults:
  assumes "only_defaults s"
  shows "only_defaults (after_getattr s path) \<and> disk (after_getattr s path) = disk s \<and>
         src_path (after_getattr s path) = src_path s"
proof -
  from after_getattr_cases [of s path] show ?thesis
  proof
    assume "after_getattr s path = s"
    with assms show ?thesis by simp
  next
    assume "\<exists>rp stats. \<not> contains (permissions s) path \<and> get_src_path s path = Inr rp \<and>
      os_lstat (disk s) rp = Inr stats \<and>
      after_getattr s path =
        s\<lparr>permissions :=
             permissions s @ [(path, \<lparr>uid = 0, gid = 0, mode = st_mode stats\<rparr>)]\<rparr>"
    then obtain rp stats where fresh: "\<not> contains (permissions s) path"
      and rp: "get_src_path s path = Inr rp" and st: "os_lstat (disk s) rp = Inr stats"
      and eq: "after_getattr s path =
        s\<lparr>permissions :=
             permissions s @ [(path, \<lparr>uid = 0, gid = 0, mode = st_mode stats\<rparr>)]\<rparr>"
      by blast
    have "trivial_default s path \<lparr>uid = 0, gid = 0, mode = st_mode stats\<rparr>"
      by (simp add: trivial_default_def real_mode_def rp st)
    with assms fresh show ?thesis
      by (auto simp: eq only_defaults_def contains_iff)
  qed
qed

lemma getattrs_only_defaults:
  "only_defaults s \<Longrightarrow>
   only_defaults (getattrs s paths) \<and> disk (getattrs s paths) = disk s \<and>
   src_path (getattrs s paths) = src_path s"
proof (induction paths arbitrary: s)
  case Nil
  then show ?case by (simp add: getattrs_def)
next
  case (Cons path paths)
  from after_getattr_only_defaults [OF Cons.prems, of path]
  have step: "only_defaults (after_getattr s path)" "disk (after_getattr s path) = disk s"
    "src_path (after_getattr s path) = src_path s" by simp_all
  from Cons.IH [OF step(1)] step(2,3) show ?case
    by (simp add: getattrs_def)
qed

lemma destroy_only_defaults:
  assumes "only_defaults s" and "write_tab (disk s) (sidecar (src_path s)) = Inr wst"
  shows "\<exists>s'. destroy s = Inr s' \<and>
           read_file (disk s') (sidecar (src_path s)) = Inr (JSON []) \<and>
           os_path_exists (disk s') (sidecar (src_path s))"
proof -
  from assms(1) have d: "distinct (map fst (permissions s))"
    and t: "\<forall>(path, p) \<in> set (permissions s). trivial_default s path p"
    by (simp_all add: only_defaults_def)
  from t have ex: "\<forall>(path, p) \<in> set (permissions s). real_file_exists s path"
    by (auto dest: trivial_default_exists)
  from t have "[(path, p) \<leftarrow> permissions s. \<not> trivial_default s path p] = []"
    by (auto simp: filter_empty_conv)
  with destroy_writes_filter [OF d ex assms(2)] show ?thesis by auto
qed

subsection \<open>The store stays a dictionary\<close>

lemma foldl_setitem_distinct:
  "distinct (map fst acc) \<Longrightarrow>
   distinct (map fst (foldl (\<lambda>d (k, v). setitem d k v) acc kvs))"
proof (induction kvs arbitrary: acc)
  case Nil
  then show ?case by simp
next
  case (Cons kv kvs)
  obtain k v where kv: "kv = (k, v)" by (cases kv)
  from Cons.prems have "distinct (map fst (setitem acc k v))" by (rule distinct_setitem)
  then show ?case by (simp add: kv Cons.IH)
qed

lemma mount_distinct:
  "PermissionRemappedFilesystem fs path = Inr s \<Longrightarrow> distinct (map fst (permissions s))"
  using foldl_setitem_distinct [of "[]"]
  by (auto simp: PermissionRemappedFilesystem_def json_load_def
           split: if_splits sum.splits content.splits)

lemma chown_distinct:
  "distinct (map fst (permissions s)) \<Longrightarrow> chown s path u g = Inr s' \<Longrightarrow>
   distinct (map fst (permissions s'))"
  by (auto simp: chown_def distinct_setitem split: if_splits sum.splits)

lemma chmod_distinct:
  "distinct (map fst (permissions s)) \<Longrightarrow> chmod s path m = Inr s' \<Longrightarrow>
   distinct (map fst (permissions s'))"
  by (auto simp: chmod_def distinct_setitem split: if_splits sum.splits)

lemma getattr_distinct:
  "distinct (map fst (permissions s)) \<Longrightarrow> getattr s path = Inr (a, s') \<Longrightarrow>
   distinct (map fst (permissions s'))"
  by (auto simp: getattr_def get_permissions_def distinct_setitem split: if_splits sum.splits)

subsection \<open>\<open>readdir\<close>\<close>

lemma readdir_entries:
  assumes "get_src_path s path = Inr rp" and "os_path_isdir (disk s) rp"
    and "os_listdir (disk s) rp = Inr names"
  shows "readdir s path fh =
         (if path = ''/'' then
            (if REMAPPER_PERM_FILE \<in> set names
             then Inr (''.'' # ''..'' # remove1 REMAPPER_PERM_FILE names)
             else Inl ValueError)
          else Inr (''.'' # ''..'' # names))"
  using assms by (simp add: readdir_def list_remove_def REMAPPER_PERM_FILE_def)

subsection \<open>\<open>os.path.relpath\<close>\<close>

lemma split_sep_nonempty [simp]: "split_sep p \<noteq> []"
  by (induction p) (auto split: list.splits)

lemma split_sep_no_sep: "w \<in> set (split_sep p) \<Longrightarrow> CHR ''/'' \<notin> set w"
proof (induction p arbitrary: w)
  case Nil
  then show ?case by simp
next
  case (Cons c cs)
  show ?case
  proof (cases "c = CHR ''/''")
    case True
    with Cons show ?thesis by auto
  next
    case False
    obtain v vs where sp: "split_sep cs = v # vs"
      by (cases "split_sep cs") simp_all
    with Cons.prems False have "w = c # v \<or> w \<in> set vs" by simp
    then show ?thesis
    proof
      assume "w = c # v"
      moreover have "CHR ''/'' \<notin> set v" using Cons.IH [of v] sp by simp
      ultimately show ?thesis using False by simp
    next
      assume "w \<in> set vs"
      then show ?thesis using Cons.IH [of w] sp by simp
    qed
  qed
qed

lemma plain_name_not_abs: "plain_name w \<Longrightarrow> \<not> startswith_sep w"
  by (cases w) (auto simp: plain_name_def startswith_sep_def)

lemma join_relative:
  assumes "a \<noteq> []" and "\<not> startswith_sep a" and "\<not> startswith_sep b"
  shows "os_path_join a b \<noteq> [] \<and> \<not> startswith_sep (os_path_join a b)"
  using assms by (cases a) (auto simp: os_path_join_def startswith_sep_def)

lemma foldl_join_relative:
  assumes "a \<noteq> []" and "\<not> startswith_sep a" and "\<forall>x \<in> set xs. \<not> startswith_sep x"
  shows "\<not> startswith_sep (foldl os_path_join a xs)"
  using assms
proof (induction xs arbitrary: a)
  case Nil
  then show ?case by simp
next
  case (Cons x xs)
  from Cons.prems have "os_path_join a x \<noteq> [] \<and> \<not> startswith_sep (os_path_join a x)"
    by (intro join_relative) simp_all
  with Cons.prems(3) show ?case by (simp add: Cons.IH)
qed

text \<open>What \<open>relpath\<close> returns never starts with a separator.\<close>

lemma relpath_relative:
  assumes "os_path_relpath wd p st = Inr r"
  shows "\<not> startswith_sep r"
proof -
  define start_list where
    "start_list = filter (\<lambda>x. x \<noteq> []) (split_sep (os_path_abspath wd st))"
  define path_list where
    "path_list = filter (\<lambda>x. x \<noteq> []) (split_sep (os_path_abspath wd p))"
  define rel_list where "rel_list =
    replicate (length start_list - length (commonprefix start_list path_list)) ''..'' @
    drop (length (commonprefix start_list path_list)) path_list"
  have plain: "\<forall>x \<in> set rel_list. plain_name x"
  proof
    fix x assume "x \<in> set rel_list"
    then have "x = ''..'' \<or> x \<in> set path_list"
      by (auto simp: rel_list_def dest: in_set_dropD)
    then show "plain_name x"
      by (auto simp: path_list_def plain_name_def dest: split_sep_no_sep)
  qed
  from assms have r:
    "r = (if rel_list = [] then ''.'' else foldl os_path_join (hd rel_list) (tl rel_list))"
    by (auto simp: os_path_relpath_def Let_def start_list_def path_list_def rel_list_def
             split: if_splits)
  show ?thesis
  proof (cases "rel_list = []")
    case True
    with r show ?thesis by (simp add: startswith_sep_def)
  next
    case False
    then obtain x xs where xs: "rel_list = x # xs" by (cases rel_list) simp_all
    with plain have "x \<noteq> []" "\<not> startswith_sep x" "\<forall>y \<in> set xs. \<not> startswith_sep y"
      by (auto simp: plain_name_not_abs) (simp add: plain_name_def)
    then have "\<not> startswith_sep (foldl os_path_join x xs)" by (rule foldl_join_relative)
    with r xs show ?thesis by simp
  qed
qed

lemma commonprefix_same [simp]: "commonprefix xs xs = xs"
  by (induction xs) simp_all

lemma relpath_same:
  assumes "p \<noteq> []" and "os_path_abspath wd p = os_path_abspath wd st"
  shows "os_path_relpath wd p st = Inr ''.''"
  using assms by (simp add: os_path_relpath_def)

lemma relpath_total: "p \<noteq> [] \<Longrightarrow> \<exists>r. os_path_relpath wd p st = Inr r"
  by (simp add: os_path_relpath_def Let_def)

subsection \<open>\<open>normpath\<close> and what \<open>relpath\<close> means\<close>

lemma split_sep_append_sep: "split_sep (a @ CHR ''/'' # b) = split_sep a @ split_sep b"
proof (induction a)
  case Nil
  then show ?case by simp
next
  case (Cons c cs)
  obtain v vs where sp: "split_sep cs = v # vs" by (cases "split_sep cs") simp_all
  with Cons show ?case by (simp split: list.splits)
qed

lemma split_sep_plain: "CHR ''/'' \<notin> set w \<Longrightarrow> split_sep w = [w]"
  by (induction w) auto

lemma split_sep_join_sep:
  assumes "ns \<noteq> []" and "\<forall>x \<in> set ns. CHR ''/'' \<notin> set x"
  shows "split_sep (join_sep ns) = ns"
  using assms
proof (induction ns rule: join_sep.induct)
  case 1
  then show ?case by simp
next
  case (2 w)
  then show ?case by (simp add: split_sep_plain)
next
  case (3 w v ws)
  have "split_sep (w @ CHR ''/'' # join_sep (v # ws)) = split_sep w @ split_sep (join_sep (v # ws))"
    by (rule split_sep_append_sep)
  with 3 show ?case by (simp add: split_sep_plain)
qed

lemma split_sep_slashes: "split_sep (replicate n CHR ''/'' @ w) = replicate n [] @ split_sep w"
  by (induction n) simp_all

lemma join_sep_snoc: "ns \<noteq> [] \<Longrightarrow> join_sep (ns @ [x]) = join_sep ns @ CHR ''/'' # x"
  by (induction ns rule: join_sep.induct) simp_all

lemma plain_name_ends:
  "plain_name w \<Longrightarrow> w \<noteq> [] \<and> last w \<noteq> CHR ''/'' \<and> hd w \<noteq> CHR ''/''"
  by (metis plain_name_def last_in_set hd_in_set)

lemma join_sep_ends:
  assumes "ns \<noteq> []" and "\<forall>x \<in> set ns. plain_name x"
  shows "join_sep ns \<noteq> [] \<and> last (join_sep ns) \<noteq> CHR ''/'' \<and> hd (join_sep ns) \<noteq> CHR ''/''"
  using assms
proof (induction ns rule: join_sep.induct)
  case 1
  then show ?case by simp
next
  case (2 w)
  then show ?case by (simp add: plain_name_ends)
next
  case (3 w v ws)
  from "3.prems" have "plain_name w" by simp
  then have "w \<noteq> []" "hd w \<noteq> CHR ''/''" by (simp_all add: plain_name_ends)
  moreover from 3 have "join_sep (v # ws) \<noteq> []" "last (join_sep (v # ws)) \<noteq> CHR ''/''"
    by simp_all
  ultimately show ?case by simp
qed

lemma foldl_join_plain:
  assumes "\<forall>x \<in> set (a # xs). plain_name x"
  shows "foldl os_path_join a xs = join_sep (a # xs)"
  using assms
proof (induction xs rule: rev_induct)
  case Nil
  then show ?case by simp
next
  case (snoc x xs)
  then have ih: "foldl os_path_join a xs = join_sep (a # xs)" by simp
  from snoc.prems have px: "plain_name x" and pl: "\<forall>y \<in> set (a # xs). plain_name y" by simp_all
  from join_sep_ends [OF _ pl] have e: "join_sep (a # xs) \<noteq> []" "last (join_sep (a # xs)) \<noteq> CHR ''/''"
    by simp_all
  from px have "\<not> startswith_sep x" by (rule plain_name_not_abs)
  with e have "os_path_join (join_sep (a # xs)) x = join_sep (a # xs) @ CHR ''/'' # x"
    by (simp add: os_path_join_def endswith_sep_def)
  moreover have "join_sep ((a # xs) @ [x]) = join_sep (a # xs) @ CHR ''/'' # x"
    by (rule join_sep_snoc) simp
  ultimately show ?case using ih by simp
qed

lemma step_skip [simp]: "normpath_step n acc [] = acc" "normpath_step n acc ''.'' = acc"
  by (simp_all add: normpath_step_def)

lemma step_clean: "x \<noteq> [] \<Longrightarrow> x \<noteq> ''.'' \<Longrightarrow> x \<noteq> ''..'' \<Longrightarrow> normpath_step n acc x = acc @ [x]"
  by (simp add: normpath_step_def)

lemma clean_last: "clean acc \<Longrightarrow> acc \<noteq> [] \<Longrightarrow> last acc \<noteq> ''..''"
  by (metis clean_def last_in_set)

lemma step_dotdot: "n \<noteq> 0 \<Longrightarrow> clean acc \<Longrightarrow> normpath_step n acc ''..'' = butlast acc"
  using clean_last [of acc] by (auto simp: normpath_step_def)

lemma clean_append: "clean (xs @ ys) \<longleftrightarrow> clean xs \<and> clean ys"
  by (auto simp: clean_def)

lemma clean_butlast: "clean acc \<Longrightarrow> clean (butlast acc)"
  by (auto simp: clean_def dest: in_set_butlastD)

lemma foldl_step_clean: "clean xs \<Longrightarrow> foldl (normpath_step n) acc xs = acc @ xs"
proof (induction xs arbitrary: acc)
  case Nil
  then show ?case by simp
next
  case (Cons x xs)
  then have "x \<noteq> []" "x \<noteq> ''.''" "x \<noteq> ''..''" "clean xs"
    by (auto simp: clean_def plain_name_def)
  with Cons.IH show ?case by (simp add: step_clean)
qed

lemma foldl_step_dotdots:
  "n \<noteq> 0 \<Longrightarrow> clean acc \<Longrightarrow>
   foldl (normpath_step n) acc (replicate k ''..'') = take (length acc - k) acc"
proof (induction k arbitrary: acc)
  case 0
  then show ?case by simp
next
  case (Suc k)
  from Suc.prems have "foldl (normpath_step n) (butlast acc) (replicate k ''..'') =
      take (length (butlast acc) - k) (butlast acc)"
    by (intro Suc.IH) (simp_all add: clean_butlast)
  with Suc.prems show ?case
    by (simp add: step_dotdot butlast_conv_take min_def)
qed

lemma foldl_step_stays_clean:
  "n \<noteq> 0 \<Longrightarrow> clean acc \<Longrightarrow> \<forall>x \<in> set xs. CHR ''/'' \<notin> set x \<Longrightarrow>
   clean (foldl (normpath_step n) acc xs)"
proof (induction xs arbitrary: acc)
  case Nil
  then show ?case by simp
next
  case (Cons x xs)
  have "clean (normpath_step n acc x)"
  proof (cases "x = [] \<or> x = ''.''")
    case True
    with Cons.prems show ?thesis by auto
  next
    case False
    show ?thesis
    proof (cases "x = ''..''")
      case True
      with Cons.prems show ?thesis by (simp add: step_dotdot clean_butlast)
    next
      case nd: False
      with False Cons.prems have "clean [x]" by (simp add: clean_def plain_name_def)
      with False nd Cons.prems show ?thesis by (simp add: step_clean clean_append)
    qed
  qed
  with Cons show ?case by simp
qed

lemma foldl_step_empties:
  "foldl (normpath_step n) acc (replicate k [] @ xs) = foldl (normpath_step n) acc xs"
  by (induction k) simp_all

lemma clean_plain: "clean ns \<Longrightarrow> \<forall>x \<in> set ns. plain_name x"
  by (simp add: clean_def)

lemma clean_no_sep: "clean ns \<Longrightarrow> \<forall>x \<in> set ns. CHR ''/'' \<notin> set x"
  by (simp add: clean_def plain_name_def)

lemma clean_filter: "clean ns \<Longrightarrow> filter (\<lambda>x. x \<noteq> []) ns = ns"
  by (induction ns) (auto simp: clean_def plain_name_def)

lemma count_initial_slashes_normal:
  assumes "n = 1 \<or> n = 2" and "w = [] \<or> hd w \<noteq> CHR ''/''"
  shows "count_initial_slashes (replicate n CHR ''/'' @ w) = n"
proof -
  from assms(1) show ?thesis
  proof
    assume "n = 1"
    with assms(2) show ?thesis
      by (cases w) (auto simp: count_initial_slashes_def startswith_sep_def)
  next
    assume "n = 2"
    with assms(2) show ?thesis
      by (cases w) (auto simp: count_initial_slashes_def startswith_sep_def numeral_2_eq_2 numeral_3_eq_3)
  qed
qed

lemma count_initial_slashes_abs:
  "startswith_sep p \<Longrightarrow> count_initial_slashes p = 1 \<or> count_initial_slashes p = 2"
  by (simp add: count_initial_slashes_def)

lemma normpath_absolute:
  assumes "startswith_sep p"
  shows "os_path_normpath p =
           replicate (count_initial_slashes p) CHR ''/'' @
           join_sep (foldl (normpath_step (count_initial_slashes p)) [] (split_sep p))"
    and "clean (foldl (normpath_step (count_initial_slashes p)) [] (split_sep p))"
proof -
  from assms have ne: "p \<noteq> []" by (auto simp: startswith_sep_def)
  from count_initial_slashes_abs [OF assms] have n: "count_initial_slashes p \<noteq> 0" by auto
  then show "os_path_normpath p =
           replicate (count_initial_slashes p) CHR ''/'' @
           join_sep (foldl (normpath_step (count_initial_slashes p)) [] (split_sep p))"
    using ne by (auto simp: os_path_normpath_def Let_def)
  have "clean []" by (simp add: clean_def)
  with n show "clean (foldl (normpath_step (count_initial_slashes p)) [] (split_sep p))"
    by (rule foldl_step_stays_clean) (auto dest: split_sep_no_sep)
qed

lemma split_sep_join_sep_clean:
  "clean ns \<Longrightarrow> filter (\<lambda>x. x \<noteq> []) (split_sep (join_sep ns)) = ns"
proof (cases "ns = []")
  case True
  then show ?thesis by simp
next
  case False
  assume "clean ns"
  with False show ?thesis
    by (simp add: split_sep_join_sep clean_no_sep clean_filter)
qed

lemma components_normal: "clean ns \<Longrightarrow> components (replicate n CHR ''/'' @ join_sep ns) = ns"
  by (simp add: components_def split_sep_slashes split_sep_join_sep_clean)

lemma foldl_step_filter:
  "foldl (normpath_step n) acc (filter (\<lambda>x. x \<noteq> []) xs) = foldl (normpath_step n) acc xs"
  by (induction xs arbitrary: acc) simp_all

lemma commonprefix_take:
  "commonprefix xs ys = take (length (commonprefix xs ys)) xs \<and>
   commonprefix xs ys = take (length (commonprefix xs ys)) ys"
  by (induction xs ys rule: commonprefix.induct) simp_all

lemma commonprefix_length:
  "length (commonprefix xs ys) \<le> length xs \<and> length (commonprefix xs ys) \<le> length ys"
  by (induction xs ys rule: commonprefix.induct) simp_all

text \<open>
  Resolving the result of \<open>relpath\<close> from the start directory leads to the path:
  the joined path has the components of the path.
\<close>

lemma relpath_resolves:
  assumes "os_path_relpath wd path start = Inr r"
    and ns: "os_path_abspath wd start = replicate n CHR ''/'' @ join_sep S" "n = 1 \<or> n = 2" "clean S"
    and np: "os_path_abspath wd path = replicate m CHR ''/'' @ join_sep P" "clean P"
  shows "components (os_path_normpath (os_path_join (os_path_abspath wd start) r)) = P"
proof -
  define A where "A = os_path_abspath wd start"
  define i where "i = length (commonprefix S P)"
  define rel where "rel = replicate (length S - i) ''..'' @ drop i P"
  have sl: "filter (\<lambda>x. x \<noteq> []) (split_sep (os_path_abspath wd start)) = S"
    using components_normal [OF ns(3), of n] by (simp add: ns(1) components_def)
  have pl: "filter (\<lambda>x. x \<noteq> []) (split_sep (os_path_abspath wd path)) = P"
    using components_normal [OF np(2), of m] by (simp add: np(1) components_def)
  from assms(1) have r: "r = (if rel = [] then ''.'' else foldl os_path_join (hd rel) (tl rel))"
    by (auto simp: os_path_relpath_def Let_def sl pl rel_def i_def split: if_splits)
  have rel_plain: "\<forall>x \<in> set rel. plain_name x"
    using clean_plain [OF np(2)] by (auto simp: rel_def plain_name_def dest: in_set_dropD)
  have r': "r = (if rel = [] then ''.'' else join_sep rel)"
  proof (cases rel)
    case Nil
    with r show ?thesis by simp
  next
    case (Cons x xs)
    with rel_plain have "foldl os_path_join x xs = join_sep (x # xs)"
      by (intro foldl_join_plain) simp
    with r Cons show ?thesis by simp
  qed
  have split_r: "foldl (normpath_step n) S (split_sep r) = P"
  proof (cases "rel = []")
    case True
    then have "length S - i = 0" "drop i P = []" by (simp_all add: rel_def)
    with commonprefix_length [of S P] have "i = length S" "length P \<le> i"
      by (simp_all add: i_def)
    with commonprefix_take [of S P] have "S = P"
      by (auto simp: i_def)
    with True r' show ?thesis by simp
  next
    case False
    from rel_plain have "\<forall>x \<in> set rel. CHR ''/'' \<notin> set x" by (simp add: plain_name_def)
    with False have "split_sep (join_sep rel) = rel" by (rule split_sep_join_sep)
    with False r' have "foldl (normpath_step n) S (split_sep r) =
        foldl (normpath_step n) (foldl (normpath_step n) S (replicate (length S - i) ''..''))
          (drop i P)"
      by (simp add: rel_def)
    also have "foldl (normpath_step n) S (replicate (length S - i) ''..'') =
        take (length S - (length S - i)) S"
      using ns(2,3) by (intro foldl_step_dotdots) auto
    also have "length S - (length S - i) = i"
      using commonprefix_length [of S P] by (simp add: i_def)
    also have "foldl (normpath_step n) (take i S) (drop i P) = take i S @ drop i P"
      using np(2) by (intro foldl_step_clean) (auto simp: clean_def dest: in_set_dropD)
    also have "take i S = take i P"
      using commonprefix_take [of S P] by (simp add: i_def)
    finally show ?thesis by simp
  qed
  have r_rel: "\<not> startswith_sep r" using assms(1) by (rule relpath_relative)
  have r_ne: "r \<noteq> []"
  proof (cases "rel = []")
    case True
    with r' show ?thesis by simp
  next
    case False
    with join_sep_ends [OF False rel_plain] r' show ?thesis by simp
  qed
  from r_rel r_ne have r_hd: "hd r \<noteq> CHR ''/''"
    by (cases r) (simp_all add: startswith_sep_def)
  have joined: "\<exists>w. os_path_join (os_path_abspath wd start) r = replicate n CHR ''/'' @ w \<and>
      (w = [] \<or> hd w \<noteq> CHR ''/'') \<and>
      foldl (normpath_step n) [] (split_sep w) = P"
  proof (cases "S = []")
    case True
    with ns(1,2) have "endswith_sep (os_path_abspath wd start)"
      by (auto simp: endswith_sep_def)
    with r_rel have "os_path_join (os_path_abspath wd start) r = replicate n CHR ''/'' @ r"
      by (simp add: os_path_join_def ns(1) True)
    moreover from split_r True have "foldl (normpath_step n) [] (split_sep r) = P" by simp
    ultimately show ?thesis using r_hd by blast
  next
    case False
    from join_sep_ends [OF False clean_plain [OF ns(3)]]
    have e: "join_sep S \<noteq> []" "last (join_sep S) \<noteq> CHR ''/''" "hd (join_sep S) \<noteq> CHR ''/''"
      by simp_all
    then have "\<not> endswith_sep (os_path_abspath wd start)"
      by (simp add: endswith_sep_def ns(1))
    moreover from ns(1,2) have "os_path_abspath wd start \<noteq> []" by auto
    ultimately have j: "os_path_join (os_path_abspath wd start) r =
        replicate n CHR ''/'' @ (join_sep S @ CHR ''/'' # r)"
      using r_rel by (simp add: os_path_join_def ns(1))
    have "split_sep (join_sep S @ CHR ''/'' # r) = S @ split_sep r"
      using False clean_no_sep [OF ns(3)] by (simp add: split_sep_append_sep split_sep_join_sep)
    then have "foldl (normpath_step n) [] (split_sep (join_sep S @ CHR ''/'' # r)) =
        foldl (normpath_step n) S (split_sep r)"
      using foldl_step_clean [OF ns(3), of n "[]"] by simp
    with split_r have "foldl (normpath_step n) [] (split_sep (join_sep S @ CHR ''/'' # r)) = P"
      by simp
    moreover from e have "hd (join_sep S @ CHR ''/'' # r) \<noteq> CHR ''/''" by simp
    ultimately show ?thesis using j by blast
  qed
  then obtain w where w: "os_path_join (os_path_abspath wd start) r = replicate n CHR ''/'' @ w"
    "w = [] \<or> hd w \<noteq> CHR ''/''" "foldl (normpath_step n) [] (split_sep w) = P"
    by blast
  let ?J = "replicate n CHR ''/'' @ w"
  have cis: "count_initial_slashes ?J = n"
    using ns(2) w(2) by (rule count_initial_slashes_normal)
  have abs: "startswith_sep ?J"
    using ns(2) by (auto simp: startswith_sep_def numeral_2_eq_2)
  have "foldl (normpath_step n) [] (split_sep ?J) = P"
    by (simp only: split_sep_slashes foldl_step_empties w(3))
  with normpath_absolute(1) [OF abs] cis
  have "os_path_normpath ?J = replicate n CHR ''/'' @ join_sep P" by simp
  then show ?thesis by (simp add: w(1) components_normal [OF np(2)])
qed

lemma abspath_absolute:
  assumes "startswith_sep wd \<or> startswith_sep p"
  shows "\<exists>n N. os_path_abspath wd p = replicate n CHR ''/'' @ join_sep N \<and> (n = 1 \<or> n = 2) \<and>
           clean N"
proof -
  define x where "x = (if \<not> startswith_sep p then os_path_join wd p else p)"
  have "startswith_sep x"
  proof (cases "startswith_sep p")
    case True
    then show ?thesis by (simp add: x_def)
  next
    case False
    with assms have "startswith_sep wd" by simp
    with False show ?thesis
      by (cases wd) (auto simp: x_def os_path_join_def startswith_sep_def)
  qed
  from normpath_absolute [OF this] count_initial_slashes_abs [OF this]
  show ?thesis unfolding os_path_abspath_def x_def [symmetric] by blast
qed

lemma relpath_resolves_from_start:
  assumes "startswith_sep wd"
    and "os_path_relpath wd path start = Inr r"
  shows "components (os_path_normpath (os_path_join (os_path_abspath wd start) r)) =
         components (os_path_abspath wd path)"
proof -
  from abspath_absolute [of wd start] assms(1) obtain n S where
    s: "os_path_abspath wd start = replicate n CHR ''/'' @ join_sep S" "n = 1 \<or> n = 2" "clean S"
    by blast
  from abspath_absolute [of wd path] assms(1) obtain m P where
    p: "os_path_abspath wd path = replicate m CHR ''/'' @ join_sep P" "m = 1 \<or> m = 2" "clean P"
    by blast
  from relpath_resolves [OF assms(2) s p(1,3)]
  have "components (os_path_normpath (os_path_join (os_path_abspath wd start) r)) = P" .
  moreover have "components (os_path_abspath wd path) = P"
    by (simp add: p(1) components_normal [OF p(3)])
  ultimately show ?thesis by simp
qed

text \<open>
  \<open>relpath\<close> in closed form, on the names of the two paths: as many \<open>..\<close> as the
  start has names past the common prefix, then the names of the path past it.
\<close>

lemma relpath_closed_form:
  assumes "path \<noteq> []"
    and "os_path_abspath wd start = replicate n CHR ''/'' @ join_sep S" and "clean S"
    and "os_path_abspath wd path = replicate m CHR ''/'' @ join_sep P" and "clean P"
  shows "os_path_relpath wd path start =
         Inr (if replicate (length S - length (commonprefix S P)) ''..'' @
                 drop (length (commonprefix S P)) P = []
              then ''.''
              else join_sep (replicate (length S - length (commonprefix S P)) ''..'' @
                             drop (length (commonprefix S P)) P))"
proof -
  define rel where "rel = replicate (length S - length (commonprefix S P)) ''..'' @
                 drop (length (commonprefix S P)) P"
  have sl: "filter (\<lambda>x. x \<noteq> []) (split_sep (os_path_abspath wd start)) = S"
    using components_normal [OF assms(3), of n] by (simp add: assms(2) components_def)
  have pl: "filter (\<lambda>x. x \<noteq> []) (split_sep (os_path_abspath wd path)) = P"
    using components_normal [OF assms(5), of m] by (simp add: assms(4) components_def)
  have r: "os_path_relpath wd path start =
      Inr (if rel = [] then ''.'' else foldl os_path_join (hd rel) (tl rel))"
    using assms(1) by (simp add: os_path_relpath_def Let_def sl pl rel_def)
  have rel_plain: "\<forall>x \<in> set rel. plain_name x"
    using clean_plain [OF assms(5)] by (auto simp: rel_def plain_name_def dest: in_set_dropD)
  have "foldl os_path_join (hd rel) (tl rel) = join_sep rel" if "rel \<noteq> []"
  proof -
    from that obtain x xs where xs: "rel = x # xs" by (cases rel) simp_all
    with rel_plain have "foldl os_path_join x xs = join_sep (x # xs)"
      by (intro foldl_join_plain) simp
    with xs show ?thesis by simp
  qed
  with r show ?thesis unfolding rel_def [symmetric] by simp
qed

lemma abspath_normal:
  assumes "clean S"
  shows "os_path_abspath wd (CHR ''/'' # join_sep S) = CHR ''/'' # join_sep S"
proof -
  let ?p = "CHR ''/'' # join_sep S"
  have hd_ok: "join_sep S = [] \<or> hd (join_sep S) \<noteq> CHR ''/''"
  proof (cases "S = []")
    case True
    then show ?thesis by simp
  next
    case False
    from join_sep_ends [OF False clean_plain [OF assms]] show ?thesis by simp
  qed
  have "count_initial_slashes (replicate 1 CHR ''/'' @ join_sep S) = 1"
    using hd_ok by (intro count_initial_slashes_normal) simp_all
  then have cis: "count_initial_slashes ?p = 1" by simp
  have comps: "foldl (normpath_step 1) [] (split_sep ?p) = S"
  proof (cases "S = []")
    case True
    then show ?thesis by simp
  next
    case False
    with clean_no_sep [OF assms] have "split_sep (join_sep S) = S"
      by (intro split_sep_join_sep) simp_all
    then show ?thesis using foldl_step_clean [OF assms, of 1 "[]"] by simp
  qed
  have "startswith_sep ?p" by (simp add: startswith_sep_def)
  then show ?thesis
    using cis comps by (simp add: os_path_abspath_def os_path_normpath_def Let_def)
qed

lemma commonprefix_Nil [simp]: "commonprefix [] ys = []"
  by (cases ys) simp_all

lemma commonprefix_prefix [simp]: "commonprefix S (S @ Q) = S"
  by (induction S) simp_all

section \<open>The claims\<close>

text \<open>The definitions of the model and of the example filesystems, for evaluation.\<close>

lemmas run_defs =
  contains_def getitem_def setitem_def json_dump_def json_load_def
  S_ISDIR_def S_ISLNK_def os_lstat_def os_path_exists_def os_path_isdir_def
  os_listdir_def os_readlink_def read_file_def write_file_def os_unlink_def
  startswith_sep_def endswith_sep_def os_path_join_def REMAPPER_PERM_FILE_def
  PermissionRemappedFilesystem_def get_src_path_def get_permissions_def list_remove_def
  readdir_def getattr_def chown_def chmod_def readlink_def unlink_def destroy_def
  real_mode_def real_file_exists_def trivial_default_def after_def after_getattr_def
  dir_stat_def file_stat_def link_stat_def empty_src_fs_def
  empty_src_state_def small_fs_def small_state_def

text \<open>
  C1, as the code has it. Over a source directory with no sidecar file the store
  starts empty, and \<open>getattr('/')\<close> answers with the mode of the real root
  directory, uid 0 and gid 0. Unmounting after a session of \<open>getattr\<close> calls (no
  \<open>chmod\<close>, no \<open>chown\<close>) does write the sidecar file, when the file can be written:
  it holds the empty mapping.
\<close>

theorem mount_over_directory_without_sidecar:
  assumes "\<not> os_path_exists fs (sidecar src)"
    and "os_lstat fs (os_path_join src []) = Inr root_stat"
    and "write_tab fs (sidecar src) = Inr wst"
  shows "PermissionRemappedFilesystem fs src =
           Inr \<lparr>disk = fs, src_path = src, permissions = []\<rparr> \<and>
         (\<exists>a s1. getattr \<lparr>disk = fs, src_path = src, permissions = []\<rparr> ''/'' = Inr (a, s1) \<and>
            st_mode a = st_mode root_stat \<and> st_uid a = 0 \<and> st_gid a = 0) \<and>
         (\<forall>paths. \<exists>s2.
            destroy (getattrs \<lparr>disk = fs, src_path = src, permissions = []\<rparr> paths) = Inr s2 \<and>
            read_file (disk s2) (sidecar src) = Inr (JSON []) \<and>
            os_path_exists (disk s2) (sidecar src))"
proof -
  let ?s0 = "\<lparr>disk = fs, src_path = src, permissions = []\<rparr>"
  have mount: "PermissionRemappedFilesystem fs src = Inr ?s0"
    using assms(1) by (simp add: PermissionRemappedFilesystem_def)
  have rp: "get_src_path ?s0 ''/'' = Inr (os_path_join src [])"
    by (simp add: get_src_path_def)
  have "\<not> contains (permissions ?s0) ''/''" by (simp add: contains_def)
  from getattr_fresh [OF this rp] assms(2)
  have first: "\<exists>a s1. getattr ?s0 ''/'' = Inr (a, s1) \<and>
            st_mode a = st_mode root_stat \<and> st_uid a = 0 \<and> st_gid a = 0"
    by auto
  have inv: "only_defaults ?s0" by (simp add: only_defaults_def)
  have last: "\<exists>s2. destroy (getattrs ?s0 paths) = Inr s2 \<and>
            read_file (disk s2) (sidecar src) = Inr (JSON []) \<and>
            os_path_exists (disk s2) (sidecar src)" for paths
  proof -
    from getattrs_only_defaults [OF inv, of paths]
    have g: "only_defaults (getattrs ?s0 paths)" "disk (getattrs ?s0 paths) = fs"
      "src_path (getattrs ?s0 paths) = src" by simp_all
    from assms(3) g
    have "write_tab (disk (getattrs ?s0 paths)) (sidecar (src_path (getattrs ?s0 paths))) =
          Inr wst"
      by simp
    from destroy_only_defaults [OF g(1) this] g show ?thesis by simp
  qed
  from mount first last show ?thesis by blast
qed

theorem mount_over_directory_without_sidecar_witness:
  "\<not> os_path_exists empty_src_fs (sidecar ''/srv/data'') \<and>
   os_lstat empty_src_fs (os_path_join ''/srv/data'' []) = Inr dir_stat \<and>
   write_tab empty_src_fs (sidecar ''/srv/data'') = Inr file_stat \<and>
   PermissionRemappedFilesystem empty_src_fs ''/srv/data'' = Inr empty_src_state \<and>
   (\<exists>a s1. getattr empty_src_state ''/'' = Inr (a, s1) \<and>
      st_mode a = 16877 \<and> st_uid a = 0 \<and> st_gid a = 0) \<and>
   (\<exists>s2. destroy (getattrs empty_src_state [''/'', ''/missing'']) = Inr s2 \<and>
      read_file (disk s2) (sidecar ''/srv/data'') = Inr (JSON []))"
proof -
  have h1: "\<not> os_path_exists empty_src_fs (sidecar ''/srv/data'')"
    by (simp add: run_defs)
  have h2: "os_lstat empty_src_fs (os_path_join ''/srv/data'' []) = Inr dir_stat"
    by (simp add: run_defs)
  have h3: "write_tab empty_src_fs (sidecar ''/srv/data'') = Inr file_stat"
    by (simp add: run_defs)
  note t = mount_over_directory_without_sidecar [OF h1 h2 h3]
  from t have a: "PermissionRemappedFilesystem empty_src_fs ''/srv/data'' = Inr empty_src_state"
    by (simp add: empty_src_state_def)
  from t have b: "\<exists>a s1. getattr empty_src_state ''/'' = Inr (a, s1) \<and>
      st_mode a = 16877 \<and> st_uid a = 0 \<and> st_gid a = 0"
    by (simp add: empty_src_state_def dir_stat_def)
  from t have "\<forall>paths. \<exists>s2. destroy (getattrs empty_src_state paths) = Inr s2 \<and>
      read_file (disk s2) (sidecar ''/srv/data'') = Inr (JSON [])"
    unfolding empty_src_state_def by blast
  then have c: "\<exists>s2. destroy (getattrs empty_src_state [''/'', ''/missing'']) = Inr s2 \<and>
      read_file (disk s2) (sidecar ''/srv/data'') = Inr (JSON [])"
    by blast
  from h1 h2 h3 a b c show ?thesis by blast
qed

text \<open>
  C1 as stated fails: in the empty directory \<open>/srv/data\<close> there is no sidecar file
  to read before the mount, and after mount, \<open>getattr('/')\<close> and unmount the
  sidecar file is there and holds the empty mapping.
\<close>

theorem unmount_writes_sidecar_counterexample:
  "\<not> sidecar_exists (Inr empty_src_state) \<and>
   sidecar_content (Inr empty_src_state) = None \<and>
   sidecar_exists (mount_getattr_unmount empty_src_fs ''/srv/data'') \<and>
   sidecar_content (mount_getattr_unmount empty_src_fs ''/srv/data'') = Some (JSON [])"
  by (simp add: run_defs sidecar_exists_def sidecar_content_def mount_getattr_unmount_def)

text \<open>
  C2 fails on the code. \<open>readdir('/')\<close> removes the sidecar name with
  \<open>list.remove\<close>, which raises when the name is not among the entries: in the
  empty directory \<open>/srv/data\<close>, which has no sidecar file, the call raises
  \<open>ValueError\<close> instead of returning \<open>.\<close> and \<open>..\<close>.
\<close>

theorem readdir_root_without_sidecar:
  "readdir empty_src_state ''/'' 0 = Inl ValueError"
  by (simp add: run_defs)

text \<open>
  C3. \<open>chown\<close> and \<open>chmod\<close> return a state with the same real filesystem and the
  same source root, and with the same store entry for every other path.
\<close>

theorem chown_chmod_touch_only_the_store:
  "(chown s path u g = Inr s' \<longrightarrow>
      disk s' = disk s \<and> src_path s' = src_path s \<and>
      (\<forall>q. q \<noteq> path \<longrightarrow> map_of (permissions s') q = map_of (permissions s) q)) \<and>
   (chmod s path m = Inr s'' \<longrightarrow>
      disk s'' = disk s \<and> src_path s'' = src_path s \<and>
      (\<forall>q. q \<noteq> path \<longrightarrow> map_of (permissions s'') q = map_of (permissions s) q))"
  by (auto simp: chown_def chmod_def setitem_def update_conv' split: if_splits sum.splits)

theorem chown_chmod_touch_only_the_store_witness:
  "chown (small_state [(''/'', \<lparr>uid = 0, gid = 0, mode = 16877\<rparr>)]) ''/a'' 42 42 =
     Inr (small_state [(''/'', \<lparr>uid = 0, gid = 0, mode = 16877\<rparr>)]
            \<lparr>permissions := [(''/'', \<lparr>uid = 0, gid = 0, mode = 16877\<rparr>),
                              (''/a'', \<lparr>uid = 42, gid = 42, mode = 33188\<rparr>)]\<rparr>) \<and>
   chmod (small_state [(''/'', \<lparr>uid = 0, gid = 0, mode = 16877\<rparr>)]) ''/a'' 384 =
     Inr (small_state [(''/'', \<lparr>uid = 0, gid = 0, mode = 16877\<rparr>)]
            \<lparr>permissions := [(''/'', \<lparr>uid = 0, gid = 0, mode = 16877\<rparr>),
                              (''/a'', \<lparr>uid = 0, gid = 0, mode = 384\<rparr>)]\<rparr>) \<and>
   disk (small_state [(''/'', \<lparr>uid = 0, gid = 0, mode = 16877\<rparr>)]
            \<lparr>permissions := [(''/'', \<lparr>uid = 0, gid = 0, mode = 16877\<rparr>),
                              (''/a'', \<lparr>uid = 42, gid = 42, mode = 33188\<rparr>)]\<rparr>) =
     disk (small_state [(''/'', \<lparr>uid = 0, gid = 0, mode = 16877\<rparr>)]) \<and>
   disk (small_state [(''/'', \<lparr>uid = 0, gid = 0, mode = 16877\<rparr>)]
            \<lparr>permissions := [(''/'', \<lparr>uid = 0, gid = 0, mode = 16877\<rparr>),
                              (''/a'', \<lparr>uid = 0, gid = 0, mode = 384\<rparr>)]\<rparr>) =
     disk (small_state [(''/'', \<lparr>uid = 0, gid = 0, mode = 16877\<rparr>)])"
proof -
  let ?s = "small_state [(''/'', \<lparr>uid = 0, gid = 0, mode = 16877\<rparr>)]"
  let ?s' = "?s\<lparr>permissions := [(''/'', \<lparr>uid = 0, gid = 0, mode = 16877\<rparr>),
                              (''/a'', \<lparr>uid = 42, gid = 42, mode = 33188\<rparr>)]\<rparr>"
  let ?s'' = "?s\<lparr>permissions := [(''/'', \<lparr>uid = 0, gid = 0, mode = 16877\<rparr>),
                              (''/a'', \<lparr>uid = 0, gid = 0, mode = 384\<rparr>)]\<rparr>"
  have h1: "chown ?s ''/a'' 42 42 = Inr ?s'"
    by (simp add: run_defs)
  have h2: "chmod ?s ''/a'' 384 = Inr ?s''"
    by (simp add: run_defs)
  from chown_chmod_touch_only_the_store [of ?s "''/a''" 42 42 ?s' 384 ?s''] h1 h2
  show ?thesis by blast
qed

text \<open>
  C4. Whenever \<open>destroy\<close> returns, the sidecar file holds the records of the store
  that are not trivial defaults, unchanged and in their order: a record is left
  out exactly when its uid and gid are 0 and its mode is the real file's current
  mode. And \<open>destroy\<close> does return when every recorded path resolves on the real
  filesystem and the sidecar file can be written.
\<close>

theorem destroy_prunes_trivial_defaults:
  assumes "distinct (map fst (permissions s))"
  shows "(\<forall>s'. destroy s = Inr s' \<longrightarrow>
            read_file (disk s') (sidecar (src_path s)) =
              Inr (JSON [(path, p) \<leftarrow> permissions s. \<not> trivial_default s path p])) \<and>
         ((\<forall>(path, p) \<in> set (permissions s). real_file_exists s path) \<and>
          (\<exists>wst. write_tab (disk s) (sidecar (src_path s)) = Inr wst) \<longrightarrow>
            (\<exists>s'. destroy s = Inr s'))"
proof -
  have written: "read_file (disk s') (sidecar (src_path s)) =
              Inr (JSON [(path, p) \<leftarrow> permissions s. \<not> trivial_default s path p])"
    if "destroy s = Inr s'" for s'
  proof -
    from destroy_success [OF that] obtain wst where
      ex: "\<forall>(path, p) \<in> set (permissions s). real_file_exists s path"
      and w: "write_tab (disk s) (sidecar (src_path s)) = Inr wst"
      by blast
    from destroy_writes_filter [OF assms ex w] that show ?thesis by auto
  qed
  have returns: "\<exists>s'. destroy s = Inr s'"
    if "\<forall>(path, p) \<in> set (permissions s). real_file_exists s path"
      and "\<exists>wst. write_tab (disk s) (sidecar (src_path s)) = Inr wst"
  proof -
    from that(2) obtain wst where "write_tab (disk s) (sidecar (src_path s)) = Inr wst"
      by blast
    from destroy_writes_filter [OF assms that(1) this] show ?thesis by blast
  qed
  from written returns show ?thesis by blast
qed

theorem destroy_prunes_trivial_defaults_witness:
  "real_file_exists (small_state
      [(''/a'', \<lparr>uid = 0, gid = 0, mode = 33188\<rparr>), (''/'', \<lparr>uid = 42, gid = 0, mode = 16877\<rparr>),
       (''/l'', \<lparr>uid = 0, gid = 0, mode = 384\<rparr>)]) ''/a'' \<and>
   (\<exists>s'. destroy (small_state
      [(''/a'', \<lparr>uid = 0, gid = 0, mode = 33188\<rparr>), (''/'', \<lparr>uid = 42, gid = 0, mode = 16877\<rparr>),
       (''/l'', \<lparr>uid = 0, gid = 0, mode = 384\<rparr>)]) = Inr s' \<and>
      read_file (disk s') ''/srv/data/.fs_perm_remapper.json'' =
        Inr (JSON [(''/'', \<lparr>uid = 42, gid = 0, mode = 16877\<rparr>),
                   (''/l'', \<lparr>uid = 0, gid = 0, mode = 384\<rparr>)]))"
proof -
  let ?d = "[(''/a'', \<lparr>uid = 0, gid = 0, mode = 33188\<rparr>),
             (''/'', \<lparr>uid = 42, gid = 0, mode = 16877\<rparr>),
             (''/l'', \<lparr>uid = 0, gid = 0, mode = 384\<rparr>)]"
  have h1: "distinct (map fst (permissions (small_state ?d)))"
    by (simp add: small_state_def)
  have h2: "\<forall>(path, p) \<in> set (permissions (small_state ?d)).
              real_file_exists (small_state ?d) path"
    by (simp add: run_defs)
  have h3: "\<exists>wst. write_tab (disk (small_state ?d)) (sidecar (src_path (small_state ?d))) =
            Inr wst"
    by (simp add: run_defs)
  have f: "[(path, p) \<leftarrow> permissions (small_state ?d).
             \<not> trivial_default (small_state ?d) path p] =
           [(''/'', \<lparr>uid = 42, gid = 0, mode = 16877\<rparr>),
            (''/l'', \<lparr>uid = 0, gid = 0, mode = 384\<rparr>)]"
    by (simp add: run_defs)
  have p: "sidecar (src_path (small_state ?d)) = ''/srv/data/.fs_perm_remapper.json''"
    by (simp add: run_defs)
  have e: "real_file_exists (small_state ?d) ''/a''"
    by (simp add: run_defs)
  note t = destroy_prunes_trivial_defaults [OF h1]
  from t h2 h3 obtain s' where s': "destroy (small_state ?d) = Inr s'" by blast
  with t have "read_file (disk s') (sidecar (src_path (small_state ?d))) =
      Inr (JSON [(path, p) \<leftarrow> permissions (small_state ?d).
             \<not> trivial_default (small_state ?d) path p])"
    by blast
  then have "read_file (disk s') ''/srv/data/.fs_perm_remapper.json'' =
        Inr (JSON [(''/'', \<lparr>uid = 42, gid = 0, mode = 16877\<rparr>),
                   (''/l'', \<lparr>uid = 0, gid = 0, mode = 384\<rparr>)])"
    by (simp only: f p)
  with s' e show ?thesis by blast
qed



text \<open>
  C6, as the code has it. For a path with no record whose real file \<open>os.lstat\<close>
  resolves, \<open>chmod\<close> then \<open>chown\<close> and \<open>chown\<close> then \<open>chmod\<close> both succeed and end in
  the same state, in which the record of the path has the uid and gid of the
  \<open>chown\<close> and the mode of the \<open>chmod\<close>.
\<close>

theorem chmod_chown_commute_on_fresh_existing_path:
  assumes "\<not> contains (permissions s) path"
    and "get_src_path s path = Inr rp" and "os_lstat (disk s) rp = Inr stats"
  shows "\<exists>s1 s2 t1. chmod s path m = Inr s1 \<and> chown s1 path u g = Inr s2 \<and>
           chown s path u g = Inr t1 \<and> chmod t1 path m = Inr s2 \<and>
           getitem (permissions s2) path = Inr \<lparr>uid = u, gid = g, mode = m\<rparr> \<and>
           s2 = s\<lparr>permissions := permissions s @ [(path, \<lparr>uid = u, gid = g, mode = m\<rparr>)]\<rparr>"
proof -
  let ?s1 = "s\<lparr>permissions := setitem (permissions s) path \<lparr>uid = 0, gid = 0, mode = m\<rparr>\<rparr>"
  let ?t1 = "s\<lparr>permissions :=
                 setitem (permissions s) path \<lparr>uid = u, gid = g, mode = st_mode stats\<rparr>\<rparr>"
  let ?s2 = "s\<lparr>permissions := setitem (permissions s) path \<lparr>uid = u, gid = g, mode = m\<rparr>\<rparr>"
  have a: "chmod s path m = Inr ?s1"
    using assms(1) by (simp add: chmod_def)
  have b: "chown ?s1 path u g = Inr ?s2"
    by (simp add: chown_def contains_setitem getitem_setitem setitem_twice)
  have c: "chown s path u g = Inr ?t1"
    using assms by (simp add: chown_def)
  have d: "chmod ?t1 path m = Inr ?s2"
    by (simp add: chmod_def contains_setitem getitem_setitem setitem_twice)
  have e: "getitem (permissions ?s2) path = Inr \<lparr>uid = u, gid = g, mode = m\<rparr>"
    by (simp add: getitem_setitem)
  have f: "?s2 = s\<lparr>permissions := permissions s @ [(path, \<lparr>uid = u, gid = g, mode = m\<rparr>)]\<rparr>"
    using assms(1) by (simp add: setitem_fresh)
  from a b c d e f show ?thesis by metis
qed

theorem chmod_chown_commute_on_fresh_existing_path_witness:
  "\<not> contains (permissions (small_state [])) ''/a'' \<and>
   get_src_path (small_state []) ''/a'' = Inr ''/srv/data/a'' \<and>
   os_lstat (disk (small_state [])) ''/srv/data/a'' = Inr file_stat \<and>
   (\<exists>s1 s2 t1. chmod (small_state []) ''/a'' 384 = Inr s1 \<and> chown s1 ''/a'' 42 42 = Inr s2 \<and>
      chown (small_state []) ''/a'' 42 42 = Inr t1 \<and> chmod t1 ''/a'' 384 = Inr s2 \<and>
      getitem (permissions s2) ''/a'' = Inr \<lparr>uid = 42, gid = 42, mode = 384\<rparr>)"
proof -
  have h1: "\<not> contains (permissions (small_state [])) ''/a''"
    by (simp add: run_defs)
  have h2: "get_src_path (small_state []) ''/a'' = Inr ''/srv/data/a''"
    by (simp add: run_defs)
  have h3: "os_lstat (disk (small_state [])) ''/srv/data/a'' = Inr file_stat"
    by (simp add: run_defs)
  from chmod_chown_commute_on_fresh_existing_path [OF h1 h2 h3, of 384 42 42] h1 h2 h3
  show ?thesis by blast
qed

text \<open>
  C6 as stated fails for a path whose real file does not exist. In the empty
  directory \<open>/srv/data\<close>, \<open>/nofile\<close> has no record; \<open>chmod\<close> then \<open>chown\<close> leaves the
  record 42/42 with mode 0o600, but in the other order \<open>chown\<close> raises
  \<open>FileNotFoundError\<close> and the \<open>chmod\<close> that follows leaves the record 0/0 with
  mode 0o600.
\<close>

theorem chown_first_on_missing_file_counterexample:
  "\<not> contains (permissions empty_src_state) ''/nofile'' \<and>
   getitem (permissions (chmod_then_chown empty_src_state ''/nofile'' 384 42 42)) ''/nofile'' =
     Inr \<lparr>uid = 42, gid = 42, mode = 384\<rparr> \<and>
   chown empty_src_state ''/nofile'' 42 42 = Inl FileNotFoundError \<and>
   getitem (permissions (chown_then_chmod empty_src_state ''/nofile'' 384 42 42)) ''/nofile'' =
     Inr \<lparr>uid = 0, gid = 0, mode = 384\<rparr>"
  by (simp add: run_defs chmod_then_chown_def chown_then_chmod_def)

text \<open>
  C7, as the code has it. Take a store with distinct keys in which no record is a
  trivial default. When every recorded path resolves on the real filesystem and
  the sidecar file can be written, \<open>destroy\<close> returns; and whenever it returns,
  the sidecar file holds all the records, unchanged and in their order, and
  mounting again loads the same store. And when the sidecar file already holds
  these records, mounting loads them, so that unmounting writes the same file
  again.
\<close>

theorem nontrivial_store_round_trip:
  assumes "distinct (map fst d)"
    and "\<forall>(path, p) \<in> set d.
           \<not> trivial_default \<lparr>disk = fs, src_path = src, permissions = d\<rparr> path p"
  shows "(\<forall>s'. destroy \<lparr>disk = fs, src_path = src, permissions = d\<rparr> = Inr s' \<longrightarrow>
            s' = \<lparr>disk = disk s', src_path = src, permissions = d\<rparr> \<and>
            read_file (disk s') (sidecar src) = Inr (JSON d) \<and>
            PermissionRemappedFilesystem (disk s') src = Inr s') \<and>
         ((\<forall>(path, p) \<in> set d.
             real_file_exists \<lparr>disk = fs, src_path = src, permissions = d\<rparr> path) \<and>
          (\<exists>wst. write_tab fs (sidecar src) = Inr wst) \<longrightarrow>
            (\<exists>s'. destroy \<lparr>disk = fs, src_path = src, permissions = d\<rparr> = Inr s')) \<and>
         (os_path_exists fs (sidecar src) \<and> read_file fs (sidecar src) = Inr (JSON d) \<longrightarrow>
            PermissionRemappedFilesystem fs src =
              Inr \<lparr>disk = fs, src_path = src, permissions = d\<rparr>)"
proof -
  let ?s = "\<lparr>disk = fs, src_path = src, permissions = d\<rparr>"
  have dist: "distinct (map fst (permissions ?s))" using assms(1) by simp
  have load: "json_load (JSON d) = Inr d"
    using json_load_dump [OF assms(1)] by (simp add: json_dump_def)
  have first: "s' = \<lparr>disk = disk s', src_path = src, permissions = d\<rparr> \<and>
            read_file (disk s') (sidecar src) = Inr (JSON d) \<and>
            PermissionRemappedFilesystem (disk s') src = Inr s'"
    if "destroy ?s = Inr s'" for s'
  proof -
    from destroy_success [OF that] obtain wst where
      ex: "\<forall>(path, p) \<in> set (permissions ?s). real_file_exists ?s path"
      and w: "write_tab (disk ?s) (sidecar (src_path ?s)) = Inr wst"
      by blast
    from destroy_writes_filter [OF dist ex w] that
    obtain fs' where s': "s' = ?s\<lparr>disk := fs'\<rparr>"
      and r: "read_file fs' (sidecar src) =
                Inr (JSON [(path, p) \<leftarrow> d. \<not> trivial_default ?s path p])"
      and e: "os_path_exists fs' (sidecar src)"
      by auto
    from r have r': "read_file fs' (sidecar src) = Inr (JSON d)"
      by (simp only: filter_all_nontrivial [OF assms(2)])
    have "PermissionRemappedFilesystem fs' src =
            Inr \<lparr>disk = fs', src_path = src, permissions = d\<rparr>"
      using e r' load by (simp add: PermissionRemappedFilesystem_def)
    with s' r' show ?thesis by simp
  qed
  have second: "\<exists>s'. destroy ?s = Inr s'"
    if "\<forall>(path, p) \<in> set d. real_file_exists ?s path"
      and "\<exists>wst. write_tab fs (sidecar src) = Inr wst"
  proof -
    from that(2) obtain wst where "write_tab (disk ?s) (sidecar (src_path ?s)) = Inr wst"
      by auto
    moreover from that(1) have "\<forall>(path, p) \<in> set (permissions ?s). real_file_exists ?s path"
      by simp
    ultimately show ?thesis using destroy_writes_filter [OF dist] by blast
  qed
  have third:
    "os_path_exists fs (sidecar src) \<and> read_file fs (sidecar src) = Inr (JSON d) \<longrightarrow>
            PermissionRemappedFilesystem fs src = Inr ?s"
    using load by (simp add: PermissionRemappedFilesystem_def)
  from first second third show ?thesis by blast
qed

theorem nontrivial_store_round_trip_witness:
  "os_path_exists (small_fs (JSON [(''/a'', \<lparr>uid = 42, gid = 42, mode = 33188\<rparr>),
                                    (''/'', \<lparr>uid = 0, gid = 0, mode = 16832\<rparr>)]))
     (sidecar ''/srv/data'') \<and>
   PermissionRemappedFilesystem
     (small_fs (JSON [(''/a'', \<lparr>uid = 42, gid = 42, mode = 33188\<rparr>),
                      (''/'', \<lparr>uid = 0, gid = 0, mode = 16832\<rparr>)])) ''/srv/data'' =
     Inr (small_state [(''/a'', \<lparr>uid = 42, gid = 42, mode = 33188\<rparr>),
                       (''/'', \<lparr>uid = 0, gid = 0, mode = 16832\<rparr>)]) \<and>
   (\<exists>s'. destroy (small_state [(''/a'', \<lparr>uid = 42, gid = 42, mode = 33188\<rparr>),
                                (''/'', \<lparr>uid = 0, gid = 0, mode = 16832\<rparr>)]) = Inr s' \<and>
          permissions s' = [(''/a'', \<lparr>uid = 42, gid = 42, mode = 33188\<rparr>),
                            (''/'', \<lparr>uid = 0, gid = 0, mode = 16832\<rparr>)] \<and>
          read_file (disk s') (sidecar ''/srv/data'') =
             Inr (JSON [(''/a'', \<lparr>uid = 42, gid = 42, mode = 33188\<rparr>),
                        (''/'', \<lparr>uid = 0, gid = 0, mode = 16832\<rparr>)]) \<and>
          PermissionRemappedFilesystem (disk s') ''/srv/data'' = Inr s')"
proof -
  let ?d = "[(''/a'', \<lparr>uid = 42, gid = 42, mode = 33188\<rparr>),
             (''/'', \<lparr>uid = 0, gid = 0, mode = 16832\<rparr>)]"
  let ?fs = "small_fs (JSON ?d)"
  let ?s = "\<lparr>disk = ?fs, src_path = ''/srv/data'', permissions = ?d\<rparr>"
  have h1: "distinct (map fst ?d)" by simp
  have h2: "\<forall>(path, p) \<in> set ?d. \<not> trivial_default ?s path p"
    by (simp add: run_defs)
  have h3: "\<forall>(path, p) \<in> set ?d. real_file_exists ?s path"
    by (simp add: run_defs)
  have h4: "\<exists>wst. write_tab ?fs (sidecar ''/srv/data'') = Inr wst"
    by (simp add: run_defs)
  have h5: "os_path_exists ?fs (sidecar ''/srv/data'')"
    by (simp add: run_defs)
  have h6: "read_file ?fs (sidecar ''/srv/data'') = Inr (JSON ?d)"
    by (simp add: run_defs)
  have st: "small_state ?d = ?s"
    by (simp add: small_state_def)
  note t = nontrivial_store_round_trip [OF h1 h2]
  from t h5 h6 have a: "PermissionRemappedFilesystem ?fs ''/srv/data'' = Inr ?s"
    by blast
  from t h3 h4 obtain s' where s': "destroy ?s = Inr s'" by blast
  with t have b: "s' = \<lparr>disk = disk s', src_path = ''/srv/data'', permissions = ?d\<rparr>"
    "read_file (disk s') (sidecar ''/srv/data'') = Inr (JSON ?d)"
    "PermissionRemappedFilesystem (disk s') ''/srv/data'' = Inr s'"
    by blast+
  from b(1) have "permissions s' = ?d"
    by (metis fs_state.select_convs(3))
  with s' b(2,3) have "\<exists>s'. destroy ?s = Inr s' \<and> permissions s' = ?d \<and>
      read_file (disk s') (sidecar ''/srv/data'') = Inr (JSON ?d) \<and>
      PermissionRemappedFilesystem (disk s') ''/srv/data'' = Inr s'"
    by blast
  with a h5 show ?thesis unfolding st by blast
qed

text \<open>
  C7 as stated fails for a store with a record whose real file is gone. The
  record of \<open>/gone\<close> with uid 42 is not a trivial default, and the sidecar file
  holds it; but \<open>/srv/data/gone\<close> does not exist, and \<open>destroy\<close> raises
  \<open>FileNotFoundError\<close> instead of writing the record.
\<close>

theorem round_trip_with_stale_record_counterexample:
  "\<not> trivial_default (small_state [(''/gone'', \<lparr>uid = 42, gid = 42, mode = 33188\<rparr>)])
       ''/gone'' \<lparr>uid = 42, gid = 42, mode = 33188\<rparr> \<and>
   PermissionRemappedFilesystem
     (small_fs (JSON [(''/gone'', \<lparr>uid = 42, gid = 42, mode = 33188\<rparr>)])) ''/srv/data'' =
     Inr (small_state [(''/gone'', \<lparr>uid = 42, gid = 42, mode = 33188\<rparr>)]) \<and>
   destroy (small_state [(''/gone'', \<lparr>uid = 42, gid = 42, mode = 33188\<rparr>)]) =
     Inl FileNotFoundError"
  by (simp add: run_defs)

text \<open>
  C8. With no sidecar file the store is created empty; with a sidecar file whose
  text \<open>json.load\<close> rejects, \<open>__init__\<close> raises the decoding error and no object
  is built.
\<close>

theorem mount_without_or_with_corrupt_sidecar:
  "(\<not> os_path_exists fs (sidecar path) \<longrightarrow>
      PermissionRemappedFilesystem fs path =
        Inr \<lparr>disk = fs, src_path = path, permissions = []\<rparr>) \<and>
   (os_path_exists fs (sidecar path) \<and> read_file fs (sidecar path) = Inr Unparsable \<longrightarrow>
      PermissionRemappedFilesystem fs path = Inl JSONDecodeError)"
  by (simp add: PermissionRemappedFilesystem_def json_load_def)

theorem mount_without_or_with_corrupt_sidecar_witness:
  "\<not> os_path_exists empty_src_fs (sidecar ''/srv/data'') \<and>
   PermissionRemappedFilesystem empty_src_fs ''/srv/data'' =
     Inr \<lparr>disk = empty_src_fs, src_path = ''/srv/data'', permissions = []\<rparr> \<and>
   os_path_exists (small_fs Unparsable) (sidecar ''/srv/data'') \<and>
   read_file (small_fs Unparsable) (sidecar ''/srv/data'') = Inr Unparsable \<and>
   PermissionRemappedFilesystem (small_fs Unparsable) ''/srv/data'' = Inl JSONDecodeError"
proof -
  have h1: "\<not> os_path_exists empty_src_fs (sidecar ''/srv/data'')"
    by (simp add: run_defs)
  have h2: "os_path_exists (small_fs Unparsable) (sidecar ''/srv/data'')"
    by (simp add: run_defs)
  have h3: "read_file (small_fs Unparsable) (sidecar ''/srv/data'') = Inr Unparsable"
    by (simp add: run_defs)
  from mount_without_or_with_corrupt_sidecar [of empty_src_fs "''/srv/data''"]
    mount_without_or_with_corrupt_sidecar [of "small_fs Unparsable" "''/srv/data''"]
    h1 h2 h3
  show ?thesis by blast
qed

text \<open>
  C9. For a symbolic link with a target that starts with \<open>/\<close>, \<open>readlink\<close> returns
  \<open>os.path.relpath(target, src_path)\<close>. The result never starts with \<open>/\<close>, and it
  is \<open>.\<close> when the target and the source root are the same path (the same
  string, or the same after \<open>abspath\<close>). It is the target relative to the source
  root. In closed form, for a source root and a target that are \<open>/\<close> followed by
  plain names joined with \<open>/\<close>, with \<open>m\<close> names in the source root of which the
  first \<open>k\<close> are those of the target too, the result is \<open>m - k\<close> times \<open>..\<close>
  followed by the names of the target after the first \<open>k\<close>, joined with \<open>/\<close>
  (and \<open>.\<close> when nothing is left); so a target below the source root loses the
  source root and keeps the rest. And with an absolute working directory,
  joining the result to the absolute source root and normalising gives a path
  with the components of the target. A target that does not start with \<open>/\<close> is
  returned as it is.
\<close>

theorem readlink_rescopes_absolute_targets:
  assumes "get_src_path s path = Inr rp"
    and "os_readlink (disk s) rp = Inr target" and "target \<noteq> []"
  shows "(startswith_sep target \<longrightarrow>
           (\<exists>r. readlink s path = Inr r \<and>
                 os_path_relpath (cwd (disk s)) target (src_path s) = Inr r \<and>
                 \<not> startswith_sep r \<and>
                 (target = src_path s \<longrightarrow> r = ''.'') \<and>
                 (os_path_abspath (cwd (disk s)) target =
                    os_path_abspath (cwd (disk s)) (src_path s) \<longrightarrow> r = ''.'') \<and>
                 (startswith_sep (cwd (disk s)) \<longrightarrow>
                    components (os_path_normpath
                      (os_path_join (os_path_abspath (cwd (disk s)) (src_path s)) r)) =
                    components (os_path_abspath (cwd (disk s)) target)) \<and>
                 (\<forall>S P. clean S \<and> clean P \<and> src_path s = CHR ''/'' # join_sep S \<and>
                         target = CHR ''/'' # join_sep P \<longrightarrow>
                    r = (if replicate (length S - length (commonprefix S P)) ''..'' @
                            drop (length (commonprefix S P)) P = []
                         then ''.''
                         else join_sep
                                (replicate (length S - length (commonprefix S P)) ''..'' @
                                 drop (length (commonprefix S P)) P))) \<and>
                 (\<forall>S Q. clean S \<and> clean Q \<and> Q \<noteq> [] \<and> src_path s = CHR ''/'' # join_sep S \<and>
                         target = CHR ''/'' # join_sep (S @ Q) \<longrightarrow>
                    r = join_sep Q))) \<and>
         (\<not> startswith_sep target \<longrightarrow> readlink s path = Inr target)"
proof -
  obtain c cs where t: "target = c # cs" using assms(3) by (cases target) simp_all
  have rel: "\<not> startswith_sep target \<Longrightarrow> readlink s path = Inr target"
    using assms(1,2) by (simp add: readlink_def t startswith_sep_def)
  have ab: "\<exists>r. readlink s path = Inr r \<and>
                 os_path_relpath (cwd (disk s)) target (src_path s) = Inr r \<and>
                 \<not> startswith_sep r \<and>
                 (target = src_path s \<longrightarrow> r = ''.'') \<and>
                 (os_path_abspath (cwd (disk s)) target =
                    os_path_abspath (cwd (disk s)) (src_path s) \<longrightarrow> r = ''.'') \<and>
                 (startswith_sep (cwd (disk s)) \<longrightarrow>
                    components (os_path_normpath
                      (os_path_join (os_path_abspath (cwd (disk s)) (src_path s)) r)) =
                    components (os_path_abspath (cwd (disk s)) target)) \<and>
                 (\<forall>S P. clean S \<and> clean P \<and> src_path s = CHR ''/'' # join_sep S \<and>
                         target = CHR ''/'' # join_sep P \<longrightarrow>
                    r = (if replicate (length S - length (commonprefix S P)) ''..'' @
                            drop (length (commonprefix S P)) P = []
                         then ''.''
                         else join_sep
                                (replicate (length S - length (commonprefix S P)) ''..'' @
                                 drop (length (commonprefix S P)) P))) \<and>
                 (\<forall>S Q. clean S \<and> clean Q \<and> Q \<noteq> [] \<and> src_path s = CHR ''/'' # join_sep S \<and>
                         target = CHR ''/'' # join_sep (S @ Q) \<longrightarrow>
                    r = join_sep Q)"
    if "startswith_sep target"
  proof -
    from relpath_total [OF assms(3)] obtain r where
      r: "os_path_relpath (cwd (disk s)) target (src_path s) = Inr r" by blast
    from that have r1: "readlink s path = Inr r"
      using assms(1,2) r by (simp add: readlink_def t startswith_sep_def)
    from r have r2: "\<not> startswith_sep r" by (rule relpath_relative)
    have same: "r = ''.''"
      if "os_path_abspath (cwd (disk s)) target = os_path_abspath (cwd (disk s)) (src_path s)"
      using relpath_same [OF assms(3) that] r by simp
    have same': "r = ''.''" if "target = src_path s"
      using same that by simp
    have leads: "components (os_path_normpath
                      (os_path_join (os_path_abspath (cwd (disk s)) (src_path s)) r)) =
                    components (os_path_abspath (cwd (disk s)) target)"
      if "startswith_sep (cwd (disk s))"
      using that r by (rule relpath_resolves_from_start)
    have closed: "r = (if replicate (length S - length (commonprefix S P)) ''..'' @
                            drop (length (commonprefix S P)) P = []
                         then ''.''
                         else join_sep
                                (replicate (length S - length (commonprefix S P)) ''..'' @
                                 drop (length (commonprefix S P)) P))"
      if "clean S" "clean P" "src_path s = CHR ''/'' # join_sep S"
        "target = CHR ''/'' # join_sep P" for S P
    proof -
      have a1: "os_path_abspath (cwd (disk s)) (src_path s) =
                replicate 1 CHR ''/'' @ join_sep S"
        using abspath_normal [OF that(1), of "cwd (disk s)"] that(3) by simp
      have a2: "os_path_abspath (cwd (disk s)) target = replicate 1 CHR ''/'' @ join_sep P"
        using abspath_normal [OF that(2), of "cwd (disk s)"] that(4) by simp
      from relpath_closed_form [OF assms(3) a1 that(1) a2 that(2)] r show ?thesis by simp
    qed
    have below: "r = join_sep Q"
      if "clean S" "clean Q" "Q \<noteq> []" "src_path s = CHR ''/'' # join_sep S"
        "target = CHR ''/'' # join_sep (S @ Q)" for S Q
    proof -
      from that(1,2) have "clean (S @ Q)" by (simp add: clean_append)
      from closed [OF that(1) this that(4,5)] that(3) show ?thesis by simp
    qed
    from r r1 r2 same same' leads closed below show ?thesis by blast
  qed
  from rel ab show ?thesis by blast
qed

theorem readlink_rescopes_absolute_targets_witness:
  "os_readlink (disk (small_state [])) ''/srv/data/l'' = Inr ''/srv/data'' \<and>
   readlink (small_state []) ''/l'' = Inr ''.'' \<and>
   components (os_path_normpath (os_path_join (os_path_abspath ''/'' ''/srv/data'') ''.'')) =
     components (os_path_abspath ''/'' ''/srv/data'') \<and>
   os_readlink (disk (small_state [])) ''/srv/data/d'' = Inr ''/srv/data/a'' \<and>
   readlink (small_state []) ''/d'' = Inr ''a'' \<and>
   os_readlink (disk (small_state [])) ''/srv/data/p'' = Inr ''/etc/passwd'' \<and>
   readlink (small_state []) ''/p'' = Inr ''../../etc/passwd'' \<and>
   os_readlink (disk (small_state [])) ''/srv/data/r'' = Inr ''a'' \<and>
   readlink (small_state []) ''/r'' = Inr ''a''"
proof -
  have src: "src_path (small_state []) = CHR ''/'' # join_sep [''srv'', ''data'']"
    by (simp add: small_state_def)
  have cl: "clean [''srv'', ''data'']" "clean [''a'']" "clean [''etc'', ''passwd'']"
    by (simp_all add: clean_def plain_name_def)
  have h1: "get_src_path (small_state []) ''/l'' = Inr ''/srv/data/l''"
    by (simp add: run_defs)
  have h2: "os_readlink (disk (small_state [])) ''/srv/data/l'' = Inr ''/srv/data''"
    by (simp add: run_defs)
  have h3: "''/srv/data'' \<noteq> []" by simp
  have h4: "startswith_sep ''/srv/data''" "''/srv/data'' = src_path (small_state [])"
    "startswith_sep (cwd (disk (small_state [])))" "cwd (disk (small_state [])) = ''/''"
    by (simp_all add: run_defs)
  from readlink_rescopes_absolute_targets [OF h1 h2 h3] h4
  have a: "readlink (small_state []) ''/l'' = Inr ''.'' \<and>
    components (os_path_normpath (os_path_join (os_path_abspath ''/'' ''/srv/data'') ''.'')) =
     components (os_path_abspath ''/'' ''/srv/data'')" by auto
  have d1: "get_src_path (small_state []) ''/d'' = Inr ''/srv/data/d''"
    by (simp add: run_defs)
  have d2: "os_readlink (disk (small_state [])) ''/srv/data/d'' = Inr ''/srv/data/a''"
    by (simp add: run_defs)
  have d3: "''/srv/data/a'' \<noteq> []" by simp
  have d4: "startswith_sep ''/srv/data/a''"
    "''/srv/data/a'' = CHR ''/'' # join_sep ([''srv'', ''data''] @ [''a''])"
    by (simp_all add: startswith_sep_def)
  from readlink_rescopes_absolute_targets [OF d1 d2 d3] d4(1)
  obtain r where r: "readlink (small_state []) ''/d'' = Inr r"
    and rq: "\<forall>S Q. clean S \<and> clean Q \<and> Q \<noteq> [] \<and>
                   src_path (small_state []) = CHR ''/'' # join_sep S \<and>
                   ''/srv/data/a'' = CHR ''/'' # join_sep (S @ Q) \<longrightarrow> r = join_sep Q"
    by blast
  from rq cl(1,2) src d4(2) have "r = join_sep [''a'']" by blast
  with r have b: "readlink (small_state []) ''/d'' = Inr ''a''" by simp
  have p1: "get_src_path (small_state []) ''/p'' = Inr ''/srv/data/p''"
    by (simp add: run_defs)
  have p2: "os_readlink (disk (small_state [])) ''/srv/data/p'' = Inr ''/etc/passwd''"
    by (simp add: run_defs)
  have p3: "''/etc/passwd'' \<noteq> []" by simp
  have p4: "startswith_sep ''/etc/passwd''"
    "''/etc/passwd'' = CHR ''/'' # join_sep [''etc'', ''passwd'']"
    by (simp_all add: startswith_sep_def)
  from readlink_rescopes_absolute_targets [OF p1 p2 p3] p4(1)
  obtain q where q: "readlink (small_state []) ''/p'' = Inr q"
    and qp: "\<forall>S P. clean S \<and> clean P \<and> src_path (small_state []) = CHR ''/'' # join_sep S \<and>
                   ''/etc/passwd'' = CHR ''/'' # join_sep P \<longrightarrow>
                q = (if replicate (length S - length (commonprefix S P)) ''..'' @
                        drop (length (commonprefix S P)) P = []
                     then ''.''
                     else join_sep
                            (replicate (length S - length (commonprefix S P)) ''..'' @
                             drop (length (commonprefix S P)) P))"
    by blast
  from qp cl(1,3) src p4(2)
  have "q = (if replicate (length [''srv'', ''data''] -
                 length (commonprefix [''srv'', ''data''] [''etc'', ''passwd''])) ''..'' @
               drop (length (commonprefix [''srv'', ''data''] [''etc'', ''passwd'']))
                 [''etc'', ''passwd''] = []
             then ''.''
             else join_sep
                    (replicate (length [''srv'', ''data''] -
                       length (commonprefix [''srv'', ''data''] [''etc'', ''passwd''])) ''..'' @
                     drop (length (commonprefix [''srv'', ''data''] [''etc'', ''passwd'']))
                       [''etc'', ''passwd'']))"
    by blast
  then have "q = ''../../etc/passwd''" by (simp add: numeral_2_eq_2)
  with q have e: "readlink (small_state []) ''/p'' = Inr ''../../etc/passwd''" by simp
  have k1: "get_src_path (small_state []) ''/r'' = Inr ''/srv/data/r''"
    by (simp add: run_defs)
  have k2: "os_readlink (disk (small_state [])) ''/srv/data/r'' = Inr ''a''"
    by (simp add: run_defs)
  have k3: "''a'' \<noteq> []" by simp
  have k4: "\<not> startswith_sep ''a''"
    by (simp add: run_defs)
  from readlink_rescopes_absolute_targets [OF k1 k2 k3] k4
  have f: "readlink (small_state []) ''/r'' = Inr ''a''" by blast
  from a b e f h2 d2 p2 k2 show ?thesis by blast
qed

text \<open>
  C10, as the code has it. When the store holds a record whose real path
  \<open>os.lstat\<close> no longer finds, the loop of \<open>destroy\<close> raises, so that the sidecar
  file is never opened: \<open>destroy\<close> fails, nothing is written and the state is the
  one before the call. The exception is that of the first record, in the order
  of the store, whose path does not resolve; it is \<open>FileNotFoundError\<close> when no
  recorded path fails to resolve for another reason. The passthrough \<open>unlink\<close>
  leaves the store alone (\<open>unlink_keeps_permissions\<close>), so a \<open>getattr\<close> followed
  by an \<open>unlink\<close> of the same path brings this state about.
\<close>

theorem destroy_fails_on_stale_record:
  assumes "(path, p) \<in> set (permissions s)"
    and "real_mode s path = Inl FileNotFoundError"
  shows "(\<exists>e. destroy_loop s (permissions s) [] = Inl e) \<and>
         (\<exists>e. destroy s = Inl e) \<and> after s (destroy s) = s \<and>
         ((\<forall>(q, r) \<in> set (permissions s).
             \<forall>e. real_mode s q = Inl e \<longrightarrow> e = FileNotFoundError) \<longrightarrow>
          destroy s = Inl FileNotFoundError) \<and>
         (\<forall>xs q r ys e.
             permissions s = xs @ (q, r) # ys \<and>
             (\<forall>(q', r') \<in> set xs. real_file_exists s q') \<and> real_mode s q = Inl e \<longrightarrow>
             destroy s = Inl e)"
proof -
  from assms have stale: "\<exists>(q, r) \<in> set (permissions s). real_mode s q = Inl FileNotFoundError"
    by auto
  then have "\<exists>(q, r) \<in> set (permissions s). \<exists>e. real_mode s q = Inl e"
    by auto
  then have loop: "\<exists>e. destroy_loop s (permissions s) [] = Inl e"
    by (rule destroy_loop_raises)
  then have fails: "\<exists>e. destroy s = Inl e"
    by (auto simp: destroy_def)
  then have same: "after s (destroy s) = s"
    by (auto simp: after_def)
  have notfound: "destroy s = Inl FileNotFoundError"
    if "\<forall>(q, r) \<in> set (permissions s). \<forall>e. real_mode s q = Inl e \<longrightarrow> e = FileNotFoundError"
  proof -
    from stale that have "destroy_loop s (permissions s) [] = Inl FileNotFoundError"
      by (rule destroy_loop_fails)
    then show ?thesis by (simp add: destroy_def)
  qed
  have first: "destroy s = Inl e"
    if "permissions s = xs @ (q, r) # ys" "\<forall>(q', r') \<in> set xs. real_file_exists s q'"
      "real_mode s q = Inl e" for xs q r ys e
  proof -
    from that(2,3) have "destroy_loop s (xs @ (q, r) # ys) [] = Inl e"
      by (rule destroy_loop_first_failure)
    then show ?thesis by (simp add: destroy_def that(1))
  qed
  from loop fails same notfound first show ?thesis by blast
qed

theorem destroy_fails_on_stale_record_witness:
  "permissions (after (after_getattr (small_state []) ''/a'')
                  (unlink (after_getattr (small_state []) ''/a'') ''/a'')) =
     [(''/a'', \<lparr>uid = 0, gid = 0, mode = 33188\<rparr>)] \<and>
   real_mode (after (after_getattr (small_state []) ''/a'')
                (unlink (after_getattr (small_state []) ''/a'') ''/a'')) ''/a'' =
     Inl FileNotFoundError \<and>
   destroy (after (after_getattr (small_state []) ''/a'')
              (unlink (after_getattr (small_state []) ''/a'') ''/a'')) =
     Inl FileNotFoundError \<and>
   real_file_exists
     (small_state [(''/a'', \<lparr>uid = 42, gid = 42, mode = 33188\<rparr>),
                   (''/gone'', \<lparr>uid = 42, gid = 42, mode = 33188\<rparr>)]) ''/a'' \<and>
   destroy
     (small_state [(''/a'', \<lparr>uid = 42, gid = 42, mode = 33188\<rparr>),
                   (''/gone'', \<lparr>uid = 42, gid = 42, mode = 33188\<rparr>)]) =
     Inl FileNotFoundError"
proof -
  let ?s = "after (after_getattr (small_state []) ''/a'')
              (unlink (after_getattr (small_state []) ''/a'') ''/a'')"
  have p: "permissions ?s = [(''/a'', \<lparr>uid = 0, gid = 0, mode = 33188\<rparr>)]"
    by (simp add: run_defs)
  have h2: "real_mode ?s ''/a'' = Inl FileNotFoundError"
    by (simp add: run_defs)
  from p have h1: "(''/a'', \<lparr>uid = 0, gid = 0, mode = 33188\<rparr>) \<in> set (permissions ?s)"
    by simp
  from p h2 have h3: "\<forall>(q, r) \<in> set (permissions ?s).
            \<forall>e. real_mode ?s q = Inl e \<longrightarrow> e = FileNotFoundError"
    by simp
  from destroy_fails_on_stale_record [OF h1 h2] h3
  have a: "destroy ?s = Inl FileNotFoundError" by blast
  let ?t = "small_state [(''/a'', \<lparr>uid = 42, gid = 42, mode = 33188\<rparr>),
                         (''/gone'', \<lparr>uid = 42, gid = 42, mode = 33188\<rparr>)]"
  have t1: "(''/gone'', \<lparr>uid = 42, gid = 42, mode = 33188\<rparr>) \<in> set (permissions ?t)"
    by (simp add: small_state_def)
  have t2: "real_mode ?t ''/gone'' = Inl FileNotFoundError"
    by (simp add: run_defs)
  have t3: "permissions ?t = [(''/a'', \<lparr>uid = 42, gid = 42, mode = 33188\<rparr>)] @
              (''/gone'', \<lparr>uid = 42, gid = 42, mode = 33188\<rparr>) # []"
    by (simp add: small_state_def)
  have t4: "real_file_exists ?t ''/a''"
    by (simp add: run_defs)
  then have t5: "\<forall>(q', r') \<in> set [(''/a'', \<lparr>uid = 42, gid = 42, mode = 33188\<rparr>)].
                   real_file_exists ?t q'"
    by simp
  from destroy_fails_on_stale_record [OF t1 t2] t3 t5 t2
  have b: "destroy ?t = Inl FileNotFoundError" by blast
  from p h2 a t4 b show ?thesis by blast
qed

text \<open>
  C10 as stated fails when another record fails to resolve first, for another
  reason. The sidecar file holds a record under the empty key and a record of
  \<open>/gone\<close>, whose real file does not exist; mounting loads both, and \<open>destroy\<close>
  raises \<open>IndexError\<close>, from \<open>path[0]\<close> on the empty key, not
  \<open>FileNotFoundError\<close>.
\<close>

theorem destroy_other_error_first_counterexample:
  "PermissionRemappedFilesystem
     (small_fs (JSON [([], \<lparr>uid = 0, gid = 0, mode = 384\<rparr>),
                      (''/gone'', \<lparr>uid = 42, gid = 42, mode = 33188\<rparr>)])) ''/srv/data'' =
     Inr (small_state [([], \<lparr>uid = 0, gid = 0, mode = 384\<rparr>),
                       (''/gone'', \<lparr>uid = 42, gid = 42, mode = 33188\<rparr>)]) \<and>
   getitem (permissions (small_state [([], \<lparr>uid = 0, gid = 0, mode = 384\<rparr>),
                                      (''/gone'', \<lparr>uid = 42, gid = 42, mode = 33188\<rparr>)]))
     ''/gone'' = Inr \<lparr>uid = 42, gid = 42, mode = 33188\<rparr> \<and>
   real_mode (small_state [([], \<lparr>uid = 0, gid = 0, mode = 384\<rparr>),
                           (''/gone'', \<lparr>uid = 42, gid = 42, mode = 33188\<rparr>)]) ''/gone'' =
     Inl FileNotFoundError \<and>
   destroy (small_state [([], \<lparr>uid = 0, gid = 0, mode = 384\<rparr>),
                         (''/gone'', \<lparr>uid = 42, gid = 42, mode = 33188\<rparr>)]) =
     Inl IndexError"
  by (simp add: run_defs)

end
